theory Spec2Isabelle
  imports Complex_Main "HOL-Library.Word" "HOL-Library.Log_Nat"
begin

section \<open>The frame distribution server (StreamingServer)\<close>

text \<open>
  A shallow embedding of \<^verbatim>\<open>StreamingServer\<close> and \<^verbatim>\<open>StreamingHandler\<close> of
  \<^verbatim>\<open>MaxShowmotion.py\<close> and of their copies in \<^verbatim>\<open>MaxShowDepth.py\<close>.
  The methods mutate the object; here each takes the object and returns the new one.
  Calls into OpenCV, the socket layer, the HTTP server and the virtual camera are
  external: the outcome of each call is an input of the model, and each call made is
  appended to a history of effects.
\<close>

subsection \<open>Bytes, errors and \<^verbatim>\<open>struct.pack\<close>\<close>

type_synonym byte = "8 word"
type_synonym bytes = "byte list"

datatype error =
    CvError
  | StructError
  | ZeroDivisionError
  | OSError
  | ImportError
  | DeviceError

text \<open>\<^verbatim>\<open>struct.pack('<i', n)\<close>: four bytes, least significant first; raises
  \<^verbatim>\<open>struct.error\<close> when \<open>n\<close> is not a signed 32-bit value.\<close>

definition le32 :: "32 word \<Rightarrow> bytes" where
  "le32 x = [ucast x, ucast (drop_bit 8 x), ucast (drop_bit 16 x), ucast (drop_bit 24 x)]"

definition pack_i :: "int \<Rightarrow> error + bytes" where
  "pack_i n = (if - (2 ^ 31) \<le> n \<and> n < 2 ^ 31 then Inr (le32 (word_of_int n))
               else Inl StructError)"

text \<open>\<^verbatim>\<open>struct.pack('<ii', a, b)\<close>.\<close>

definition pack_ii :: "int \<Rightarrow> int \<Rightarrow> error + bytes" where
  "pack_ii a b =
     (case pack_i a of Inl e \<Rightarrow> Inl e
      | Inr x \<Rightarrow> (case pack_i b of Inl e \<Rightarrow> Inl e | Inr y \<Rightarrow> Inr (x @ y)))"

text \<open>The reader's side, \<^verbatim>\<open>struct.unpack('<i', bs)\<close>, used to state what a header
  decodes to.\<close>

fun unpack_i :: "bytes \<Rightarrow> int" where
  "unpack_i [b0, b1, b2, b3] =
     sint (word_of_int (uint b0 + 256 * uint b1 + 65536 * uint b2 + 16777216 * uint b3)
             :: 32 word)"
| "unpack_i _ = 0"

subsection \<open>Python floats\<close>

text \<open>
  \<^verbatim>\<open>scale = min(self.max_width / width, self.max_height / height)\<close> and
  \<^verbatim>\<open>int(width * scale)\<close> are computed in binary64. A float is modelled by the rational
  it denotes; an operation returns the exact result rounded to 53 significant bits,
  ties to even. (Exponent range, infinities and NaN play no part for the magnitudes
  that occur: quotients and products of integers below \<open>2 ^ 53\<close>.)
\<close>

definition flog2 :: "rat \<Rightarrow> int" where
  "flog2 x = (let (p, q) = quotient_of x; k = bitlen p - bitlen q
              in if of_int q * 2 powi k \<le> (of_int p :: rat) then k else k - 1)"

definition rne :: "rat \<Rightarrow> int" where
  "rne y = (let f = \<lfloor>y\<rfloor>; d = y - of_int f
            in if d < 1 / 2 then f
               else if 1 / 2 < d then f + 1
               else if even f then f else f + 1)"

definition fl :: "rat \<Rightarrow> rat" where
  "fl x = (if x = 0 then 0
           else let e = flog2 \<bar>x\<bar> - 52
                in sgn x * of_int (rne (\<bar>x\<bar> / 2 powi e)) * 2 powi e)"

text \<open>\<^verbatim>\<open>a / b\<close> on integers (true division, correctly rounded).\<close>

definition py_truediv :: "int \<Rightarrow> int \<Rightarrow> error + rat" where
  "py_truediv a b = (if b = 0 then Inl ZeroDivisionError else Inr (fl (of_int a / of_int b)))"

text \<open>\<^verbatim>\<open>n * x\<close> with an integer \<open>n\<close> and a float \<open>x\<close>: \<open>n\<close> is converted first.\<close>

definition py_mul_int_float :: "int \<Rightarrow> rat \<Rightarrow> rat" where
  "py_mul_int_float n x = fl (fl (of_int n) * x)"

text \<open>\<^verbatim>\<open>int(x)\<close> on a float: truncation towards zero.\<close>

definition py_int :: "rat \<Rightarrow> int" where
  "py_int x = (if 0 \<le> x then \<lfloor>x\<rfloor> else \<lceil>x\<rceil>)"

subsection \<open>Frames and the OpenCV calls\<close>

text \<open>A frame is a numpy array of shape \<open>(rows, cols, 3)\<close> and dtype uint8;
  \<open>pix\<close> is what \<^verbatim>\<open>tobytes()\<close> returns.\<close>

record frame =
  rows :: nat
  cols :: nat
  pix :: bytes

definition frame_ok :: "frame \<Rightarrow> bool" where
  "frame_ok f = (length (pix f) = rows f * cols f * 3)"

text \<open>What the external calls made during one \<^verbatim>\<open>update_frame\<close> return; \<open>Inl\<close> is an
  exception raised by the call.\<close>

record cv_env =
  cv_imencode :: "frame \<Rightarrow> error + bytes"
  cv_imwrite :: "string \<Rightarrow> frame \<Rightarrow> error + bool"
  cv_cvtColor :: "frame \<Rightarrow> error + frame"
  cv_resize :: "frame \<Rightarrow> int \<times> int \<Rightarrow> error + frame"
  cam_send :: "frame \<Rightarrow> error + unit"
  cam_sleep :: "error + unit"

subsection \<open>The server object and the history of effects\<close>

type_synonym sock = nat
type_synonym cam = nat

datatype diag =
    StreamAvailable int
  | DepthStreamAvailable int
  | SingleFrameAvailable int
  | LocalFileUpdated string
  | MaxPatchRead string
  | ObsBrowserSource int
  | ObsImageSource string
  | VirtualCameraCreated cam
  | MaxPatchGrab cam
  | ObsCaptureDevice cam
  | PyvirtualcamNotInstalled
  | VirtualCameraFailed error
  | MacOsNote
  | TcpListening int
  | TcpSocketFailed error
  | ClientConnected sock
  | TcpAcceptError
  | LocalFileSaved string
  | LocalFileFailed error
  | VirtualCamSendFailed error
  | FirstFramePrepared int int nat
  | FramesPrepared int int int nat
  | FramePreparationError error
  | Traceback

datatype effect =
    Print diag
  | ImWrite string frame
  | CamSend cam frame
  | CamSleep cam
  | CamClose cam
  | HttpBind int
  | HttpServeForever
  | HttpShutdown
  | HttpServerClose
  | SockBind sock int
  | SockClose sock
  | SockSend sock bytes

text \<open>The \<^verbatim>\<open>HTTPServer\<close> object; \<open>frame_bytes\<close> is an attribute that exists only once
  \<^verbatim>\<open>update_frame\<close> has set it.\<close>

record http_server =
  frame_bytes :: "bytes option"

text \<open>Where the accept thread stands in \<^verbatim>\<open>_tcp_accept_loop\<close>.\<close>

datatype loop_pc = NotStarted | Listening | Sending | Exited

text \<open>The attributes of \<^verbatim>\<open>StreamingServer\<close> (\<open>thread\<close> and \<open>tcp_thread\<close> say whether
  the thread has been started), followed by two components that are not attributes: the
  position of the accept thread and the history of the external calls made so far.\<close>

record streaming_server =
  port :: int
  tcp_port :: int
  server :: "http_server option"
  thread :: bool
  tcp_socket :: "sock option"
  tcp_client :: "sock option"
  tcp_thread :: bool
  max_width :: int
  max_height :: int
  frame_count :: int
  latest_frame_data :: "bytes option"
  use_virtual_cam :: bool
  virtual_cam :: "cam option"
  local_file_path :: string
  accept_pc :: loop_pc
  effects :: "effect list"

definition emit :: "effect list \<Rightarrow> streaming_server \<Rightarrow> streaming_server" where
  "emit es s = s\<lparr>effects := effects s @ es\<rparr>"

subsection \<open>\<^verbatim>\<open>update_frame\<close>\<close>

text \<open>Lines 129 to 135: the file snapshot.\<close>

definition file_snapshot_step ::
  "cv_env \<Rightarrow> frame \<Rightarrow> streaming_server \<Rightarrow> streaming_server" where
  "file_snapshot_step env frm s =
     (let s1 = emit [ImWrite (local_file_path s) frm] s
      in case cv_imwrite env (local_file_path s) frm of
           Inr success \<Rightarrow>
             (if success \<and> frame_count s = 0
              then emit [Print (LocalFileSaved (local_file_path s))] s1 else s1)
         | Inl e \<Rightarrow>
             (if frame_count s = 0 then emit [Print (LocalFileFailed e)] s1 else s1))"

text \<open>Lines 138 to 146, the body of the virtual camera's \<^verbatim>\<open>try\<close>: the calls on
  the device that returned, and the exception if one was raised.\<close>

definition virtual_cam_body ::
  "cv_env \<Rightarrow> frame \<Rightarrow> cam \<Rightarrow> int \<Rightarrow> int \<Rightarrow> effect list \<times> error option" where
  "virtual_cam_body env frm c mw mh =
     (case cv_cvtColor env frm of
        Inl e \<Rightarrow> ([], Some e)
      | Inr rgb_frame \<Rightarrow>
          (case (if int (cols rgb_frame) \<noteq> mw \<or> int (rows rgb_frame) \<noteq> mh
                 then cv_resize env rgb_frame (mw, mh) else Inr rgb_frame) of
             Inl e \<Rightarrow> ([], Some e)
           | Inr rgb_frame2 \<Rightarrow>
               (case cam_send env rgb_frame2 of
                  Inl e \<Rightarrow> ([], Some e)
                | Inr _ \<Rightarrow>
                    (case cam_sleep env of
                       Inl e \<Rightarrow> ([CamSend c rgb_frame2], Some e)
                     | Inr _ \<Rightarrow> ([CamSend c rgb_frame2, CamSleep c], None)))))"

text \<open>Lines 137 to 149.\<close>

definition virtual_cam_step ::
  "cv_env \<Rightarrow> frame \<Rightarrow> streaming_server \<Rightarrow> streaming_server" where
  "virtual_cam_step env frm s =
     (case virtual_cam s of
        None \<Rightarrow> s
      | Some c \<Rightarrow>
          (if use_virtual_cam s
           then (case virtual_cam_body env frm c (max_width s) (max_height s) of
                   (es, None) \<Rightarrow> emit es s
                 | (es, Some e) \<Rightarrow>
                     (if frame_count s = 0
                      then emit (es @ [Print (VirtualCamSendFailed e)]) s
                      else emit es s))
           else s))"

text \<open>Lines 156 to 158: the target size of the downscale.\<close>

definition scaled_size :: "int \<Rightarrow> int \<Rightarrow> int \<Rightarrow> int \<Rightarrow> error + int \<times> int" where
  "scaled_size mw mh width height =
     (case py_truediv mw width of
        Inl e \<Rightarrow> Inl e
      | Inr a \<Rightarrow>
          (case py_truediv mh height of
             Inl e \<Rightarrow> Inl e
           | Inr b \<Rightarrow>
               (let scale = min a b
                in Inr (py_int (py_mul_int_float width scale),
                        py_int (py_mul_int_float height scale)))))"

text \<open>Lines 162 to 173: the MatrixPacket.\<close>

definition matrix_packet :: "int \<Rightarrow> int \<Rightarrow> bytes \<Rightarrow> error + bytes" where
  "matrix_packet width height matrix_data =
     (case pack_ii width height of
        Inl e \<Rightarrow> Inl e
      | Inr dims \<Rightarrow>
          Inr (le32 0 @ [] @ le32 2 @ dims @ le32 1 @ le32 3 @ matrix_data))"

text \<open>Lines 152 to 173, the body of the TCP sink's \<^verbatim>\<open>try\<close> up to the packet: the
  emitted width and height and the packet, or the exception.\<close>

definition tcp_prepare ::
  "cv_env \<Rightarrow> frame \<Rightarrow> int \<Rightarrow> int \<Rightarrow> error + int \<times> int \<times> bytes" where
  "tcp_prepare env frm mw mh =
     (case cv_cvtColor env frm of
        Inl e \<Rightarrow> Inl e
      | Inr rgb_frame \<Rightarrow>
          (case (if mw < int (cols rgb_frame) \<or> mh < int (rows rgb_frame)
                 then (case scaled_size mw mh (int (cols rgb_frame)) (int (rows rgb_frame)) of
                         Inl e \<Rightarrow> Inl e
                       | Inr new_size \<Rightarrow> cv_resize env rgb_frame new_size)
                 else Inr rgb_frame) of
             Inl e \<Rightarrow> Inl e
           | Inr rgb_frame2 \<Rightarrow>
               (case matrix_packet (int (cols rgb_frame2)) (int (rows rgb_frame2))
                       (pix rgb_frame2) of
                  Inl e \<Rightarrow> Inl e
                | Inr packet \<Rightarrow>
                    Inr (int (cols rgb_frame2), int (rows rgb_frame2), packet))))"

text \<open>Lines 151 to 184.\<close>

definition tcp_sink_step ::
  "cv_env \<Rightarrow> frame \<Rightarrow> streaming_server \<Rightarrow> streaming_server" where
  "tcp_sink_step env frm s =
     (case tcp_prepare env frm (max_width s) (max_height s) of
        Inl e \<Rightarrow> emit [Print (FramePreparationError e), Print Traceback] s
      | Inr (width, height, packet) \<Rightarrow>
          (let n = frame_count s + 1;
               s1 = s\<lparr>latest_frame_data := Some packet, frame_count := n\<rparr>;
               s2 = (if n = 1
                     then emit [Print (FirstFramePrepared width height (length packet))] s1
                     else s1)
           in if n mod 30 = 0
              then emit [Print (FramesPrepared n width height (length packet))] s2
              else s2))"

text \<open>Lines 126 and 127.\<close>

definition publish_jpeg :: "bytes \<Rightarrow> streaming_server \<Rightarrow> streaming_server" where
  "publish_jpeg frame_data s =
     (case server s of
        None \<Rightarrow> s
      | Some srv \<Rightarrow> s\<lparr>server := Some (srv\<lparr>frame_bytes := Some frame_data\<rparr>)\<rparr>)"

text \<open>Lines 122 to 184. \<^verbatim>\<open>cv.imencode\<close> on line 123 stands outside every \<^verbatim>\<open>try\<close>:
  when it raises, the exception leaves \<^verbatim>\<open>update_frame\<close> before anything is assigned.\<close>

definition update_frame ::
  "cv_env \<Rightarrow> frame \<Rightarrow> streaming_server \<Rightarrow> error + streaming_server" where
  "update_frame env frm s =
     (case cv_imencode env frm of
        Inl e \<Rightarrow> Inl e
      | Inr frame_data \<Rightarrow>
          Inr (tcp_sink_step env frm
                (virtual_cam_step env frm
                  (file_snapshot_step env frm
                    (publish_jpeg frame_data s)))))"

subsection \<open>Construction, \<^verbatim>\<open>start\<close> and \<^verbatim>\<open>stop\<close>\<close>

text \<open>Lines 43 to 61. \<open>home\<close> is what \<^verbatim>\<open>os.path.expanduser\<close> puts for \<^verbatim>\<open>~\<close>.\<close>

definition init ::
  "string \<Rightarrow> int \<Rightarrow> int \<Rightarrow> int \<Rightarrow> int \<Rightarrow> string option \<Rightarrow> bool \<Rightarrow> streaming_server" where
  "init home p tp mw mh path use_cam =
     \<lparr>port = p, tcp_port = tp, server = None, thread = False, tcp_socket = None,
      tcp_client = None, tcp_thread = False, max_width = mw, max_height = mh,
      frame_count = 0, latest_frame_data = None, use_virtual_cam = use_cam,
      virtual_cam = None,
      local_file_path = (case path of None \<Rightarrow> home @ ''/max_video_frame.jpg''
                         | Some f \<Rightarrow> f),
      accept_pc = NotStarted, effects = []\<rparr>"

text \<open>What the external calls of \<^verbatim>\<open>start\<close> return: the \<^verbatim>\<open>HTTPServer\<close> constructor
  (which binds the port), the import and construction of the virtual camera, and the
  creation, binding and listening of the TCP socket.\<close>

record start_env =
  http_bind :: "error + unit"
  cam_create :: "error + cam"
  tcp_listen :: "error + sock"

text \<open>Lines 72 to 85.\<close>

definition start_virtual_cam :: "start_env \<Rightarrow> streaming_server \<Rightarrow> streaming_server" where
  "start_virtual_cam w s =
     (if use_virtual_cam s
      then (case cam_create w of
              Inr c \<Rightarrow>
                emit [Print (VirtualCameraCreated c), Print (MaxPatchGrab c)]
                  (s\<lparr>virtual_cam := Some c\<rparr>)
            | Inl e \<Rightarrow>
                (if e = ImportError
                 then emit [Print PyvirtualcamNotInstalled, Print MacOsNote]
                        (s\<lparr>use_virtual_cam := False\<rparr>)
                 else emit [Print (VirtualCameraFailed e), Print MacOsNote]
                        (s\<lparr>use_virtual_cam := False\<rparr>)))
      else s)"

text \<open>Lines 87 to 98.\<close>

definition start_tcp :: "start_env \<Rightarrow> streaming_server \<Rightarrow> streaming_server" where
  "start_tcp w s =
     (case tcp_listen w of
        Inr sk \<Rightarrow>
          emit [SockBind sk (tcp_port s), Print (TcpListening (tcp_port s))]
            (s\<lparr>tcp_socket := Some sk, tcp_thread := True, accept_pc := Listening\<rparr>)
      | Inl e \<Rightarrow> emit [Print (TcpSocketFailed e)] (s\<lparr>tcp_socket := None\<rparr>))"

text \<open>Lines 63 to 98. The \<^verbatim>\<open>HTTPServer\<close> constructor on line 64 stands outside every
  \<^verbatim>\<open>try\<close>: when it raises, the exception leaves \<^verbatim>\<open>start\<close> before anything is assigned.\<close>

definition start :: "start_env \<Rightarrow> streaming_server \<Rightarrow> error + streaming_server" where
  "start w s =
     (case http_bind w of
        Inl e \<Rightarrow> Inl e
      | Inr _ \<Rightarrow>
          Inr (start_tcp w
                (start_virtual_cam w
                  (emit [HttpBind (port s), HttpServeForever,
                         Print (StreamAvailable (port s)),
                         Print (SingleFrameAvailable (port s)),
                         Print (LocalFileUpdated (local_file_path s)),
                         Print (MaxPatchRead (local_file_path s))]
                    (s\<lparr>server := Some \<lparr>frame_bytes = None\<rparr>, thread := True\<rparr>)))))"

text \<open>What the three \<^verbatim>\<open>close\<close> calls of \<^verbatim>\<open>stop\<close> return. (\<^verbatim>\<open>server.shutdown()\<close> sets a
  flag and waits for \<^verbatim>\<open>serve_forever\<close> to end; it raises nothing.)\<close>

record stop_env =
  client_close :: "error + unit"
  socket_close :: "error + unit"
  cam_close :: "error + unit"

text \<open>Lines 186 to 203. Each \<^verbatim>\<open>close\<close> is issued whether or not it then raises, and
  the handler is \<^verbatim>\<open>pass\<close>.\<close>

definition stop :: "stop_env \<Rightarrow> streaming_server \<Rightarrow> streaming_server" where
  "stop w s =
     (let s1 = (case server s of None \<Rightarrow> s | Some _ \<Rightarrow> emit [HttpShutdown] s);
          s2 = (case tcp_client s1 of
                  None \<Rightarrow> s1
                | Some c \<Rightarrow>
                    (case client_close w of
                       Inr _ \<Rightarrow> emit [SockClose c] s1
                     | Inl _ \<Rightarrow> emit [SockClose c] s1));
          s3 = (case tcp_socket s2 of
                  None \<Rightarrow> s2
                | Some sk \<Rightarrow>
                    (case socket_close w of
                       Inr _ \<Rightarrow> emit [SockClose sk] s2
                     | Inl _ \<Rightarrow> emit [SockClose sk] s2))
      in case virtual_cam s3 of
           None \<Rightarrow> s3
         | Some c \<Rightarrow>
             (case cam_close w of
                Inr _ \<Rightarrow> emit [CamClose c] s3
              | Inl _ \<Rightarrow> emit [CamClose c] s3))"

subsection \<open>\<^verbatim>\<open>_tcp_accept_loop\<close>\<close>

text \<open>What \<^verbatim>\<open>accept\<close> returns, and what the external calls of one pass return.\<close>

datatype accept_result = Accepted sock | AcceptTimeout | AcceptFailed

record loop_env =
  accept_out :: accept_result
  sendall_out :: "error + unit"

text \<open>
  Lines 100 to 120, one pass: at \<open>Listening\<close> one turn of the outer \<^verbatim>\<open>while\<close> up to
  the return of \<^verbatim>\<open>accept\<close>; at \<open>Sending\<close> one turn of the inner \<^verbatim>\<open>while\<close>. The thread
  runs beside the caller of \<^verbatim>\<open>update_frame\<close>, so the passes interleave with the other
  methods.
\<close>

definition tcp_accept_loop_step :: "loop_env \<Rightarrow> streaming_server \<Rightarrow> streaming_server" where
  "tcp_accept_loop_step w s =
     (case accept_pc s of
        Listening \<Rightarrow>
          (case tcp_socket s of
             None \<Rightarrow> s\<lparr>accept_pc := Exited\<rparr>
           | Some sk \<Rightarrow>
               (case accept_out w of
                  Accepted client \<Rightarrow>
                    emit [Print (ClientConnected client)]
                      (s\<lparr>tcp_client := Some client, accept_pc := Sending\<rparr>)
                | AcceptTimeout \<Rightarrow> s
                | AcceptFailed \<Rightarrow> emit [Print TcpAcceptError] (s\<lparr>accept_pc := Exited\<rparr>)))
      | Sending \<Rightarrow>
          (case tcp_client s of
             None \<Rightarrow> s\<lparr>accept_pc := Listening\<rparr>
           | Some client \<Rightarrow>
               (case latest_frame_data s of
                  None \<Rightarrow> s
                | Some d \<Rightarrow>
                    (if d = [] then s
                     else (case sendall_out w of
                             Inr _ \<Rightarrow> emit [SockSend client d] s
                           | Inl _ \<Rightarrow> s\<lparr>accept_pc := Listening\<rparr>))))
      | NotStarted \<Rightarrow> s
      | Exited \<Rightarrow> s)"

text \<open>The passes of the loop for a finite run of outcomes.\<close>

fun tcp_accept_loop :: "loop_env list \<Rightarrow> streaming_server \<Rightarrow> streaming_server" where
  "tcp_accept_loop [] s = s"
| "tcp_accept_loop (w # ws) s = tcp_accept_loop ws (tcp_accept_loop_step w s)"

subsection \<open>\<^verbatim>\<open>StreamingHandler.do_GET\<close>\<close>

datatype header_value = Str string | Num nat

datatype http_call =
    SendResponse nat
  | SendHeader string header_value
  | EndHeaders
  | WfileWrite bytes

text \<open>Lines 13 to 23: each element is the server object as one turn of the loop sees
  it, and whether the writes of that turn succeed. The loop has no exit but a failed
  write; the list is the run observed so far.\<close>

fun stream_loop :: "(http_server \<times> bool) list \<Rightarrow> http_call list" where
  "stream_loop [] = []"
| "stream_loop ((srv, ok) # rest) =
     (case frame_bytes srv of
        None \<Rightarrow> stream_loop rest
      | Some fb \<Rightarrow>
          (if ok
           then [WfileWrite [45, 45, 102, 114, 97, 109, 101, 13, 10],
                 SendHeader ''Content-Type'' (Str ''image/jpeg''),
                 SendHeader ''Content-Length'' (Num (length fb)),
                 EndHeaders,
                 WfileWrite fb,
                 WfileWrite [13, 10]] @ stream_loop rest
           else []))"

text \<open>Lines 8 to 37.\<close>

definition do_GET :: "string \<Rightarrow> http_server \<Rightarrow> (http_server \<times> bool) list \<Rightarrow> http_call list" where
  "do_GET path srv turns =
     (if path = ''/stream''
      then [SendResponse 200,
            SendHeader ''Content-Type'' (Str ''multipart/x-mixed-replace; boundary=frame''),
            EndHeaders] @ stream_loop turns
      else if path = ''/frame.jpg''
      then (case frame_bytes srv of
              Some fb \<Rightarrow>
                [SendResponse 200,
                 SendHeader ''Content-Type'' (Str ''image/jpeg''),
                 SendHeader ''Content-Length'' (Num (length fb)),
                 SendHeader ''Cache-Control'' (Str ''no-cache''),
                 EndHeaders,
                 WfileWrite fb]
            | None \<Rightarrow> [SendResponse 404, EndHeaders])
      else [SendResponse 404, EndHeaders])"

subsection \<open>The copy in \<^verbatim>\<open>MaxShowDepth.py\<close>: \<^verbatim>\<open>update_frame\<close>\<close>

text \<open>Lines 131 to 137: the file snapshot.\<close>

definition depth_file_snapshot_step ::
  "cv_env \<Rightarrow> frame \<Rightarrow> streaming_server \<Rightarrow> streaming_server" where
  "depth_file_snapshot_step env frm s =
     (let s1 = emit [ImWrite (local_file_path s) frm] s
      in case cv_imwrite env (local_file_path s) frm of
           Inr success \<Rightarrow>
             (if success \<and> frame_count s = 0
              then emit [Print (LocalFileSaved (local_file_path s))] s1 else s1)
         | Inl e \<Rightarrow>
             (if frame_count s = 0 then emit [Print (LocalFileFailed e)] s1 else s1))"

text \<open>Lines 140 to 148, the body of the virtual camera's \<^verbatim>\<open>try\<close>: the calls on
  the device that returned, and the exception if one was raised.\<close>

definition depth_virtual_cam_body ::
  "cv_env \<Rightarrow> frame \<Rightarrow> cam \<Rightarrow> int \<Rightarrow> int \<Rightarrow> effect list \<times> error option" where
  "depth_virtual_cam_body env frm c mw mh =
     (case cv_cvtColor env frm of
        Inl e \<Rightarrow> ([], Some e)
      | Inr rgb_frame \<Rightarrow>
          (case (if int (cols rgb_frame) \<noteq> mw \<or> int (rows rgb_frame) \<noteq> mh
                 then cv_resize env rgb_frame (mw, mh) else Inr rgb_frame) of
             Inl e \<Rightarrow> ([], Some e)
           | Inr rgb_frame2 \<Rightarrow>
               (case cam_send env rgb_frame2 of
                  Inl e \<Rightarrow> ([], Some e)
                | Inr _ \<Rightarrow>
                    (case cam_sleep env of
                       Inl e \<Rightarrow> ([CamSend c rgb_frame2], Some e)
                     | Inr _ \<Rightarrow> ([CamSend c rgb_frame2, CamSleep c], None)))))"

text \<open>Lines 139 to 151.\<close>

definition depth_virtual_cam_step ::
  "cv_env \<Rightarrow> frame \<Rightarrow> streaming_server \<Rightarrow> streaming_server" where
  "depth_virtual_cam_step env frm s =
     (case virtual_cam s of
        None \<Rightarrow> s
      | Some c \<Rightarrow>
          (if use_virtual_cam s
           then (case depth_virtual_cam_body env frm c (max_width s) (max_height s) of
                   (es, None) \<Rightarrow> emit es s
                 | (es, Some e) \<Rightarrow>
                     (if frame_count s = 0
                      then emit (es @ [Print (VirtualCamSendFailed e)]) s
                      else emit es s))
           else s))"

text \<open>Lines 158 to 160: the target size of the downscale.\<close>

definition depth_scaled_size :: "int \<Rightarrow> int \<Rightarrow> int \<Rightarrow> int \<Rightarrow> error + int \<times> int" where
  "depth_scaled_size mw mh width height =
     (case py_truediv mw width of
        Inl e \<Rightarrow> Inl e
      | Inr a \<Rightarrow>
          (case py_truediv mh height of
             Inl e \<Rightarrow> Inl e
           | Inr b \<Rightarrow>
               (let scale = min a b
                in Inr (py_int (py_mul_int_float width scale),
                        py_int (py_mul_int_float height scale)))))"

text \<open>Lines 164 to 175: the MatrixPacket.\<close>

definition depth_matrix_packet :: "int \<Rightarrow> int \<Rightarrow> bytes \<Rightarrow> error + bytes" where
  "depth_matrix_packet width height matrix_data =
     (case pack_ii width height of
        Inl e \<Rightarrow> Inl e
      | Inr dims \<Rightarrow>
          Inr (le32 0 @ [] @ le32 2 @ dims @ le32 1 @ le32 3 @ matrix_data))"

text \<open>Lines 154 to 175, the body of the TCP sink's \<^verbatim>\<open>try\<close> up to the packet: the
  emitted width and height and the packet, or the exception.\<close>

definition depth_tcp_prepare ::
  "cv_env \<Rightarrow> frame \<Rightarrow> int \<Rightarrow> int \<Rightarrow> error + int \<times> int \<times> bytes" where
  "depth_tcp_prepare env frm mw mh =
     (case cv_cvtColor env frm of
        Inl e \<Rightarrow> Inl e
      | Inr rgb_frame \<Rightarrow>
          (case (if mw < int (cols rgb_frame) \<or> mh < int (rows rgb_frame)
                 then (case depth_scaled_size mw mh (int (cols rgb_frame)) (int (rows rgb_frame)) of
                         Inl e \<Rightarrow> Inl e
                       | Inr new_size \<Rightarrow> cv_resize env rgb_frame new_size)
                 else Inr rgb_frame) of
             Inl e \<Rightarrow> Inl e
           | Inr rgb_frame2 \<Rightarrow>
               (case depth_matrix_packet (int (cols rgb_frame2)) (int (rows rgb_frame2))
                       (pix rgb_frame2) of
                  Inl e \<Rightarrow> Inl e
                | Inr packet \<Rightarrow>
                    Inr (int (cols rgb_frame2), int (rows rgb_frame2), packet))))"

text \<open>Lines 153 to 186.\<close>

definition depth_tcp_sink_step ::
  "cv_env \<Rightarrow> frame \<Rightarrow> streaming_server \<Rightarrow> streaming_server" where
  "depth_tcp_sink_step env frm s =
     (case depth_tcp_prepare env frm (max_width s) (max_height s) of
        Inl e \<Rightarrow> emit [Print (FramePreparationError e), Print Traceback] s
      | Inr (width, height, packet) \<Rightarrow>
          (let n = frame_count s + 1;
               s1 = s\<lparr>latest_frame_data := Some packet, frame_count := n\<rparr>;
               s2 = (if n = 1
                     then emit [Print (FirstFramePrepared width height (length packet))] s1
                     else s1)
           in if n mod 30 = 0
              then emit [Print (FramesPrepared n width height (length packet))] s2
              else s2))"

text \<open>Lines 128 and 129.\<close>

definition depth_publish_jpeg :: "bytes \<Rightarrow> streaming_server \<Rightarrow> streaming_server" where
  "depth_publish_jpeg frame_data s =
     (case server s of
        None \<Rightarrow> s
      | Some srv \<Rightarrow> s\<lparr>server := Some (srv\<lparr>frame_bytes := Some frame_data\<rparr>)\<rparr>)"

text \<open>Lines 124 to 186. \<^verbatim>\<open>cv2.imencode\<close> on line 125 stands outside every \<^verbatim>\<open>try\<close>:
  when it raises, the exception leaves \<^verbatim>\<open>update_frame\<close> before anything is assigned.\<close>

definition depth_update_frame ::
  "cv_env \<Rightarrow> frame \<Rightarrow> streaming_server \<Rightarrow> error + streaming_server" where
  "depth_update_frame env frm s =
     (case cv_imencode env frm of
        Inl e \<Rightarrow> Inl e
      | Inr frame_data \<Rightarrow>
          Inr (depth_tcp_sink_step env frm
                (depth_virtual_cam_step env frm
                  (depth_file_snapshot_step env frm
                    (depth_publish_jpeg frame_data s)))))"

subsection \<open>The copy in \<^verbatim>\<open>MaxShowDepth.py\<close>: construction, \<^verbatim>\<open>start\<close> and \<^verbatim>\<open>stop\<close>\<close>

text \<open>Lines 45 to 63. \<open>home\<close> is what \<^verbatim>\<open>os.path.expanduser\<close> puts for \<^verbatim>\<open>~\<close>.\<close>

definition depth_init ::
  "string \<Rightarrow> int \<Rightarrow> int \<Rightarrow> int \<Rightarrow> int \<Rightarrow> string option \<Rightarrow> bool \<Rightarrow> streaming_server" where
  "depth_init home p tp mw mh path use_cam =
     \<lparr>port = p, tcp_port = tp, server = None, thread = False, tcp_socket = None,
      tcp_client = None, tcp_thread = False, max_width = mw, max_height = mh,
      frame_count = 0, latest_frame_data = None, use_virtual_cam = use_cam,
      virtual_cam = None,
      local_file_path = (case path of None \<Rightarrow> home @ ''/max_depth_frame.jpg''
                         | Some f \<Rightarrow> f),
      accept_pc = NotStarted, effects = []\<rparr>"

text \<open>Lines 75 to 88.\<close>

definition depth_start_virtual_cam :: "start_env \<Rightarrow> streaming_server \<Rightarrow> streaming_server" where
  "depth_start_virtual_cam w s =
     (if use_virtual_cam s
      then (case cam_create w of
              Inr c \<Rightarrow>
                emit [Print (VirtualCameraCreated c), Print (ObsCaptureDevice c)]
                  (s\<lparr>virtual_cam := Some c\<rparr>)
            | Inl e \<Rightarrow>
                (if e = ImportError
                 then emit [Print PyvirtualcamNotInstalled, Print MacOsNote]
                        (s\<lparr>use_virtual_cam := False\<rparr>)
                 else emit [Print (VirtualCameraFailed e), Print MacOsNote]
                        (s\<lparr>use_virtual_cam := False\<rparr>)))
      else s)"

text \<open>Lines 90 to 101.\<close>

definition depth_start_tcp :: "start_env \<Rightarrow> streaming_server \<Rightarrow> streaming_server" where
  "depth_start_tcp w s =
     (case tcp_listen w of
        Inr sk \<Rightarrow>
          emit [SockBind sk (tcp_port s), Print (TcpListening (tcp_port s))]
            (s\<lparr>tcp_socket := Some sk, tcp_thread := True, accept_pc := Listening\<rparr>)
      | Inl e \<Rightarrow> emit [Print (TcpSocketFailed e)] (s\<lparr>tcp_socket := None\<rparr>))"

text \<open>Lines 65 to 101. The \<^verbatim>\<open>HTTPServer\<close> constructor on line 66 stands outside every
  \<^verbatim>\<open>try\<close>: when it raises, the exception leaves \<^verbatim>\<open>start\<close> before anything is assigned.\<close>

definition depth_start :: "start_env \<Rightarrow> streaming_server \<Rightarrow> error + streaming_server" where
  "depth_start w s =
     (case http_bind w of
        Inl e \<Rightarrow> Inl e
      | Inr _ \<Rightarrow>
          Inr (depth_start_tcp w
                (depth_start_virtual_cam w
                  (emit [HttpBind (port s), HttpServeForever,
                         Print (DepthStreamAvailable (port s)),
                         Print (SingleFrameAvailable (port s)),
                         Print (LocalFileUpdated (local_file_path s)),
                         Print (ObsBrowserSource (port s)),
                         Print (ObsImageSource (local_file_path s))]
                    (s\<lparr>server := Some \<lparr>frame_bytes = None\<rparr>, thread := True\<rparr>)))))"

text \<open>Lines 188 to 205. Each \<^verbatim>\<open>close\<close> is issued whether or not it then raises, and
  the handler is \<^verbatim>\<open>pass\<close>.\<close>

definition depth_stop :: "stop_env \<Rightarrow> streaming_server \<Rightarrow> streaming_server" where
  "depth_stop w s =
     (let s1 = (case server s of None \<Rightarrow> s | Some _ \<Rightarrow> emit [HttpShutdown] s);
          s2 = (case tcp_client s1 of
                  None \<Rightarrow> s1
                | Some c \<Rightarrow>
                    (case client_close w of
                       Inr _ \<Rightarrow> emit [SockClose c] s1
                     | Inl _ \<Rightarrow> emit [SockClose c] s1));
          s3 = (case tcp_socket s2 of
                  None \<Rightarrow> s2
                | Some sk \<Rightarrow>
                    (case socket_close w of
                       Inr _ \<Rightarrow> emit [SockClose sk] s2
                     | Inl _ \<Rightarrow> emit [SockClose sk] s2))
      in case virtual_cam s3 of
           None \<Rightarrow> s3
         | Some c \<Rightarrow>
             (case cam_close w of
                Inr _ \<Rightarrow> emit [CamClose c] s3
              | Inl _ \<Rightarrow> emit [CamClose c] s3))"

subsection \<open>\<^verbatim>\<open>StreamingHandler.depth_do_GET\<close>\<close>

text \<open>Lines 15 to 25: each element is the server object as one turn of the loop sees
  it, and whether the writes of that turn succeed. The loop has no exit but a failed
  write; the list is the run observed so far.\<close>

fun depth_stream_loop :: "(http_server \<times> bool) list \<Rightarrow> http_call list" where
  "depth_stream_loop [] = []"
| "depth_stream_loop ((srv, ok) # rest) =
     (case frame_bytes srv of
        None \<Rightarrow> depth_stream_loop rest
      | Some fb \<Rightarrow>
          (if ok
           then [WfileWrite [45, 45, 102, 114, 97, 109, 101, 13, 10],
                 SendHeader ''Content-Type'' (Str ''image/jpeg''),
                 SendHeader ''Content-Length'' (Num (length fb)),
                 EndHeaders,
                 WfileWrite fb,
                 WfileWrite [13, 10]] @ depth_stream_loop rest
           else []))"

text \<open>Lines 10 to 39.\<close>

definition depth_do_GET :: "string \<Rightarrow> http_server \<Rightarrow> (http_server \<times> bool) list \<Rightarrow> http_call list" where
  "depth_do_GET path srv turns =
     (if path = ''/stream''
      then [SendResponse 200,
            SendHeader ''Content-Type'' (Str ''multipart/x-mixed-replace; boundary=frame''),
            EndHeaders] @ depth_stream_loop turns
      else if path = ''/frame.jpg''
      then (case frame_bytes srv of
              Some fb \<Rightarrow>
                [SendResponse 200,
                 SendHeader ''Content-Type'' (Str ''image/jpeg''),
                 SendHeader ''Content-Length'' (Num (length fb)),
                 SendHeader ''Cache-Control'' (Str ''no-cache''),
                 EndHeaders,
                 WfileWrite fb]
            | None \<Rightarrow> [SendResponse 404, EndHeaders])
      else [SendResponse 404, EndHeaders])"

subsection \<open>Runs of calls and what a reader observes\<close>

text \<open>The owner's calls on one server object, in order; a call that raises ends the run.\<close>

datatype call = Start start_env | UpdateFrame cv_env frame | Stop stop_env

fun calls :: "call list \<Rightarrow> streaming_server \<Rightarrow> error + streaming_server" where
  "calls [] s = Inr s"
| "calls (Start w # cs) s = (case start w s of Inl e \<Rightarrow> Inl e | Inr t \<Rightarrow> calls cs t)"
| "calls (UpdateFrame env frm # cs) s =
     (case update_frame env frm s of Inl e \<Rightarrow> Inl e | Inr t \<Rightarrow> calls cs t)"
| "calls (Stop w # cs) s = calls cs (stop w s)"

fun depth_calls :: "call list \<Rightarrow> streaming_server \<Rightarrow> error + streaming_server" where
  "depth_calls [] s = Inr s"
| "depth_calls (Start w # cs) s =
     (case depth_start w s of Inl e \<Rightarrow> Inl e | Inr t \<Rightarrow> depth_calls cs t)"
| "depth_calls (UpdateFrame env frm # cs) s =
     (case depth_update_frame env frm s of Inl e \<Rightarrow> Inl e | Inr t \<Rightarrow> depth_calls cs t)"
| "depth_calls (Stop w # cs) s = depth_calls cs (depth_stop w s)"

text \<open>The two published representations: the JPEG the HTTP handlers read and the
  MatrixPacket the send loop reads.\<close>

definition published :: "streaming_server \<Rightarrow> bytes option \<times> bytes option" where
  "published s =
     ((case server s of None \<Rightarrow> None | Some srv \<Rightarrow> frame_bytes srv), latest_frame_data s)"

text \<open>The server object apart from the path of the file snapshot and the history of
  effects.\<close>

definition core :: "streaming_server \<Rightarrow> streaming_server" where
  "core s = s\<lparr>local_file_path := [], effects := []\<rparr>"

text \<open>The six int32 fields a receiver reads from the first 24 bytes of a packet.\<close>

definition packet_header :: "bytes \<Rightarrow> int list" where
  "packet_header p = map (\<lambda>k. unpack_i (take 4 (drop (4 * k) p))) [0, 1, 2, 3, 4, 5]"

text \<open>How often the failure of the file write has been reported.\<close>

definition file_failure_reports :: "streaming_server \<Rightarrow> nat" where
  "file_failure_reports s =
     length (filter (\<lambda>x. case x of Print (LocalFileFailed _) \<Rightarrow> True | _ \<Rightarrow> False) (effects s))"

text \<open>
  The listening socket of the HTTP server after a history of calls: the \<^verbatim>\<open>HTTPServer\<close>
  constructor opens and binds it, \<^verbatim>\<open>server_close()\<close> closes it, and \<^verbatim>\<open>shutdown()\<close>
  only ends \<^verbatim>\<open>serve_forever\<close>.
\<close>

fun http_socket_after :: "bool \<Rightarrow> effect \<Rightarrow> bool" where
  "http_socket_after _ (HttpBind _) = True"
| "http_socket_after _ HttpServerClose = False"
| "http_socket_after b _ = b"

definition http_socket_open :: "effect list \<Rightarrow> bool" where
  "http_socket_open es = foldl http_socket_after False es"

subsection \<open>Concrete inputs\<close>

text \<open>
  An environment in which the calls behave as the libraries document: \<^verbatim>\<open>imencode\<close> and
  \<^verbatim>\<open>cvtColor\<close> reject an empty image, \<^verbatim>\<open>cvtColor\<close> swaps the first and third channel
  of every pixel, \<^verbatim>\<open>resize\<close> rejects an empty target size and returns an image of the
  target size, and the file and the camera accept what they are given. The bytes of the
  JPEG and the pixels of a resized image are placeholders.
\<close>

fun swap_channels :: "bytes \<Rightarrow> bytes" where
  "swap_channels (b # g # r # rest) = r # g # b # swap_channels rest"
| "swap_channels _ = []"

definition sample_env :: cv_env where
  "sample_env =
     \<lparr>cv_imencode = (\<lambda>f. if rows f = 0 \<or> cols f = 0 then Inl CvError
                         else Inr [255, 216, 255, 217]),
      cv_imwrite = (\<lambda>path f. Inr True),
      cv_cvtColor = (\<lambda>f. if rows f = 0 \<or> cols f = 0 then Inl CvError
                         else Inr (f\<lparr>pix := swap_channels (pix f)\<rparr>)),
      cv_resize = (\<lambda>f (w, h). if w \<le> 0 \<or> h \<le> 0 then Inl CvError
                              else Inr \<lparr>rows = nat h, cols = nat w,
                                       pix = replicate (nat h * nat w * 3) 0\<rparr>),
      cam_send = (\<lambda>f. Inr ()),
      cam_sleep = Inr ()\<rparr>"

text \<open>The same environment with a file write that raises.\<close>

definition write_fails_env :: cv_env where
  "write_fails_env = sample_env\<lparr>cv_imwrite := (\<lambda>path f. Inl OSError)\<rparr>"

text \<open>A frame two pixels wide and one high, an empty frame, and a strip four pixels
  wide and one high.\<close>

definition small_frame :: frame where
  "small_frame = \<lparr>rows = 1, cols = 2, pix = [10, 20, 30, 40, 50, 60]\<rparr>"

definition empty_frame :: frame where
  "empty_frame = \<lparr>rows = 0, cols = 0, pix = []\<rparr>"

definition strip_frame :: frame where
  "strip_frame = \<lparr>rows = 1, cols = 4, pix = [1, 2, 3, 4, 5, 6, 7, 8, 9, 10, 11, 12]\<rparr>"

definition tall_frame :: frame where
  "tall_frame = \<lparr>rows = 4, cols = 2,
     pix = [1, 2, 3, 4, 5, 6, 7, 8, 9, 10, 11, 12, 13, 14, 15, 16, 17, 18, 19, 20, 21, 22, 23, 24]\<rparr>"

text \<open>Outcomes of \<^verbatim>\<open>start\<close>, \<^verbatim>\<open>stop\<close> and the accept loop.\<close>

definition start_ok :: start_env where
  "start_ok = \<lparr>http_bind = Inr (), cam_create = Inr 1, tcp_listen = Inr 5\<rparr>"

definition http_port_in_use :: start_env where
  "http_port_in_use = \<lparr>http_bind = Inl OSError, cam_create = Inr 1, tcp_listen = Inr 5\<rparr>"

definition stop_ok :: stop_env where
  "stop_ok = \<lparr>client_close = Inr (), socket_close = Inr (), cam_close = Inr ()\<rparr>"

definition client_arrives :: loop_env where
  "client_arrives = \<lparr>accept_out = Accepted 7, sendall_out = Inr ()\<rparr>"

definition second_client_arrives :: loop_env where
  "second_client_arrives = \<lparr>accept_out = Accepted 8, sendall_out = Inr ()\<rparr>"

definition send_ok :: loop_env where
  "send_ok = \<lparr>accept_out = AcceptTimeout, sendall_out = Inr ()\<rparr>"

definition send_fails :: loop_env where
  "send_fails = \<lparr>accept_out = AcceptTimeout, sendall_out = Inl OSError\<rparr>"

text \<open>A server with the default bounds, before \<^verbatim>\<open>start\<close>, and one with a bound of two
  by two pixels.\<close>

definition fresh :: streaming_server where
  "fresh = init ''/home/user'' 8080 8081 640 480 None False"

definition fresh_small :: streaming_server where
  "fresh_small = init ''/home/user'' 8080 8081 2 2 None False"

text \<open>The server after \<^verbatim>\<open>start\<close>; then with a client accepted; then with one frame
  published.\<close>

definition started :: streaming_server where
  "started = (case start start_ok fresh of Inr s \<Rightarrow> s | Inl _ \<Rightarrow> fresh)"

definition connected :: streaming_server where
  "connected = tcp_accept_loop_step client_arrives started"

definition streaming :: streaming_server where
  "streaming = (case update_frame sample_env small_frame connected of
                  Inr s \<Rightarrow> s | Inl _ \<Rightarrow> connected)"



section \<open>Properties\<close>

subsection \<open>\<^verbatim>\<open>struct.pack\<close> and the packet header\<close>

lemma bytes_sum:
  fixes u :: int
  assumes "0 \<le> u" "u < 4294967296"
  shows "u mod 256 + 256 * (u div 256 mod 256) + 65536 * (u div 65536 mod 256)
          + 16777216 * (u div 16777216 mod 256) = u"
proof -
  define a where "a = u div 256"
  define b where "b = a div 256"
  define c where "c = b div 256"
  have u: "u = u mod 256 + 256 * a" by (simp add: a_def)
  have a: "a = a mod 256 + 256 * b" by (simp add: b_def)
  have b: "b = b mod 256 + 256 * c" by (simp add: c_def)
  have d16: "u div 65536 = b"
    unfolding b_def a_def by (simp add: zdiv_zmult2_eq [symmetric])
  have d24: "u div 16777216 = c"
    unfolding c_def b_def a_def by (simp add: zdiv_zmult2_eq [symmetric])
  have "c < 256" using assms unfolding d24 [symmetric] by simp
  moreover have "0 \<le> c" using assms unfolding d24 [symmetric] by simp
  ultimately have c: "c mod 256 = c" by simp
  show ?thesis unfolding d16 d24 c a_def [symmetric] using u a b by linarith
qed

lemma uint_low_byte: "uint (ucast (x::32 word) :: 8 word) = uint x mod 256"
  by (simp add: unsigned_ucast_eq take_bit_eq_mod unsigned_take_bit_eq)

lemma uint_drop_bit_32: "uint (drop_bit n (x::32 word)) = uint x div 2 ^ n"
proof -
  have "take_bit 32 (uint x) = uint x"
    using uint_bounded [of x] by (simp add: take_bit_int_eq_self)
  then show ?thesis
    unfolding unsigned_drop_bit_eq by (simp add: drop_bit_eq_div)
qed

lemma le32_sum:
  "uint (ucast (x::32 word) :: 8 word) + 256 * uint (ucast (drop_bit 8 x) :: 8 word)
    + 65536 * uint (ucast (drop_bit 16 x) :: 8 word)
    + 16777216 * uint (ucast (drop_bit 24 x) :: 8 word) = uint x"
proof -
  have b: "uint x < 4294967296" using uint_bounded [of x] by simp
  have p: "(2::int) ^ 8 = 256" "(2::int) ^ 16 = 65536" "(2::int) ^ 24 = 16777216"
    by simp_all
  show ?thesis
    unfolding uint_low_byte uint_drop_bit_32 p by (rule bytes_sum [OF _ b]) simp
qed

text \<open>Unpacking what \<open>le32\<close> wrote gives the signed value back.\<close>

lemma unpack_le32: "unpack_i (le32 x) = sint x"
  unfolding le32_def unpack_i.simps le32_sum by simp

lemma length_le32: "length (le32 x) = 4"
  by (simp add: le32_def)

lemma packet_header_fields:
  "packet_header (le32 a @ le32 b @ le32 c @ le32 d @ le32 e @ le32 f @ rest)
     = [sint a, sint b, sint c, sint d, sint e, sint f]"
  by (simp add: packet_header_def length_le32 unpack_le32)

lemma int_less_pow31: "n < 2 ^ 31 \<Longrightarrow> int n < 2 ^ 31"
proof -
  assume "n < 2 ^ 31"
  then have "int n < int (2 ^ 31)" by (simp only: of_nat_less_iff)
  then show ?thesis by simp
qed

lemma sint_word_of_nat_32:
  assumes "n < 2 ^ 31"
  shows "sint (word_of_nat n :: 32 word) = int n"
proof -
  have "int n < 2 ^ 31" using assms by (rule int_less_pow31)
  then have "signed_take_bit 31 (int n) = int n"
    by (simp add: signed_take_bit_int_eq_self)
  then show ?thesis by (simp add: signed_of_nat)
qed

lemma matrix_packet_ok:
  assumes "0 \<le> w" "w < 2 ^ 31" "0 \<le> h" "h < 2 ^ 31"
  shows "matrix_packet w h d =
           Inr (le32 0 @ le32 2 @ le32 (word_of_int w) @ le32 (word_of_int h)
                 @ le32 1 @ le32 3 @ d)"
  using assms by (simp add: matrix_packet_def pack_ii_def pack_i_def)

subsection \<open>What the steps of \<^verbatim>\<open>update_frame\<close> leave alone\<close>

lemma file_snapshot_step_emits: "\<exists>es. file_snapshot_step env frm s = emit es s"
  by (auto simp: file_snapshot_step_def emit_def Let_def split: sum.splits)

lemma virtual_cam_step_emits: "\<exists>es. virtual_cam_step env frm s = emit es s"
proof (cases "virtual_cam s")
  case None
  then have "virtual_cam_step env frm s = emit [] s"
    by (simp add: virtual_cam_step_def emit_def)
  then show ?thesis ..
next
  case (Some c)
  show ?thesis
  proof (cases "use_virtual_cam s")
    case False
    with Some have "virtual_cam_step env frm s = emit [] s"
      by (simp add: virtual_cam_step_def emit_def)
    then show ?thesis ..
  next
    case True
    obtain es r where b: "virtual_cam_body env frm c (max_width s) (max_height s) = (es, r)"
      by (cases "virtual_cam_body env frm c (max_width s) (max_height s)")
    show ?thesis
      using Some True b by (cases r) (auto simp: virtual_cam_step_def)
  qed
qed

lemma sinks_before_tcp_emit:
  "\<exists>es. virtual_cam_step env frm (file_snapshot_step env frm (publish_jpeg jpg s))
         = emit es (publish_jpeg jpg s)"
proof -
  obtain es1 where a: "file_snapshot_step env frm (publish_jpeg jpg s)
                         = emit es1 (publish_jpeg jpg s)"
    using file_snapshot_step_emits by blast
  obtain es2 where b: "virtual_cam_step env frm (emit es1 (publish_jpeg jpg s))
                         = emit es2 (emit es1 (publish_jpeg jpg s))"
    using virtual_cam_step_emits by blast
  have "emit es2 (emit es1 (publish_jpeg jpg s)) = emit (es1 @ es2) (publish_jpeg jpg s)"
    by (simp add: emit_def)
  with a b show ?thesis by metis
qed

lemma publish_jpeg_fields:
  "max_width (publish_jpeg jpg s) = max_width s"
  "max_height (publish_jpeg jpg s) = max_height s"
  "latest_frame_data (publish_jpeg jpg s) = latest_frame_data s"
  "frame_count (publish_jpeg jpg s) = frame_count s"
  "effects (publish_jpeg jpg s) = effects s"
  "local_file_path (publish_jpeg jpg s) = local_file_path s"
  by (simp_all add: publish_jpeg_def split: option.splits)

lemma emit_fields:
  "max_width (emit es s) = max_width s"
  "max_height (emit es s) = max_height s"
  "latest_frame_data (emit es s) = latest_frame_data s"
  "frame_count (emit es s) = frame_count s"
  "server (emit es s) = server s"
  "effects (emit es s) = effects s @ es"
  by (simp_all add: emit_def)

lemma tcp_sink_step_publishes:
  "tcp_prepare env frm (max_width s) (max_height s) = Inr (w, h, p) \<Longrightarrow>
     latest_frame_data (tcp_sink_step env frm s) = Some p"
  by (simp add: tcp_sink_step_def Let_def emit_fields)

lemma tcp_sink_step_keeps:
  "tcp_prepare env frm (max_width s) (max_height s) = Inl e \<Longrightarrow>
     latest_frame_data (tcp_sink_step env frm s) = latest_frame_data s"
  by (simp add: tcp_sink_step_def emit_fields)

text \<open>The packet of a whole \<^verbatim>\<open>update_frame\<close> is the one the TCP step prepares.\<close>

lemma update_frame_latest:
  assumes "cv_imencode env frm = Inr jpg"
    and "tcp_prepare env frm (max_width s) (max_height s) = Inr (w, h, p)"
  shows "\<exists>t. update_frame env frm s = Inr t \<and> latest_frame_data t = Some p"
proof -
  obtain es where e: "virtual_cam_step env frm (file_snapshot_step env frm (publish_jpeg jpg s))
                        = emit es (publish_jpeg jpg s)"
    using sinks_before_tcp_emit by blast
  have "tcp_prepare env frm (max_width (emit es (publish_jpeg jpg s)))
          (max_height (emit es (publish_jpeg jpg s))) = Inr (w, h, p)"
    using assms(2) by (simp add: emit_fields publish_jpeg_fields)
  then have "latest_frame_data (tcp_sink_step env frm (emit es (publish_jpeg jpg s))) = Some p"
    by (rule tcp_sink_step_publishes)
  then show ?thesis
    using assms(1) e by (simp add: update_frame_def)
qed

subsection \<open>The packet of a frame within the bound\<close>

lemma tcp_prepare_no_resize:
  assumes "cv_cvtColor env frm = Inr rgb"
    and "int (cols rgb) \<le> mw" "int (rows rgb) \<le> mh"
    and "cols rgb < 2 ^ 31" "rows rgb < 2 ^ 31"
  shows "tcp_prepare env frm mw mh =
           Inr (int (cols rgb), int (rows rgb),
                le32 0 @ le32 2 @ le32 (word_of_nat (cols rgb)) @ le32 (word_of_nat (rows rgb))
                  @ le32 1 @ le32 3 @ pix rgb)"
proof -
  have "matrix_packet (int (cols rgb)) (int (rows rgb)) (pix rgb) =
          Inr (le32 0 @ le32 2 @ le32 (word_of_int (int (cols rgb)))
                @ le32 (word_of_int (int (rows rgb))) @ le32 1 @ le32 3 @ pix rgb)"
    using assms(4,5) by (intro matrix_packet_ok int_less_pow31) simp_all
  moreover have "\<not> (mw < int (cols rgb) \<or> mh < int (rows rgb))"
    using assms(2,3) by simp
  ultimately show ?thesis
    unfolding tcp_prepare_def by (simp add: assms(1))
qed

text \<open>
  C1. For a frame whose width \<open>w\<close> and height \<open>h\<close> are within the bound (and fit an
  int32 field), on which \<^verbatim>\<open>imencode\<close> returns and \<^verbatim>\<open>cvtColor\<close> returns an RGB image
  of the same shape, \<^verbatim>\<open>update_frame\<close> publishes as \<open>latest_frame_data\<close> exactly the six
  little-endian int32 fields \<open>0, 2, w, h, 1, 3\<close> (24 bytes, no name bytes) followed by the
  \<open>w * h * 3\<close> bytes of the RGB image: the emitted width and height are those of the
  input.
\<close>

theorem C1_packet_within_bound:
  assumes "cv_imencode env frm = Inr jpg"
    and "cv_cvtColor env frm = Inr rgb"
    and "cols rgb = cols frm" "rows rgb = rows frm" "frame_ok rgb"
    and "int (cols frm) \<le> max_width s" "int (rows frm) \<le> max_height s"
    and "cols frm < 2 ^ 31" "rows frm < 2 ^ 31"
  shows "\<exists>t p. update_frame env frm s = Inr t \<and> latest_frame_data t = Some p
           \<and> p = le32 0 @ le32 2 @ le32 (word_of_nat (cols frm))
                   @ le32 (word_of_nat (rows frm)) @ le32 1 @ le32 3 @ pix rgb
           \<and> packet_header p = [0, 2, int (cols frm), int (rows frm), 1, 3]
           \<and> length p = 24 + cols frm * rows frm * 3
           \<and> drop 24 p = pix rgb
           \<and> length (pix rgb) = cols frm * rows frm * 3"
proof -
  let ?p = "le32 0 @ le32 2 @ le32 (word_of_nat (cols frm))
              @ le32 (word_of_nat (rows frm)) @ le32 1 @ le32 3 @ pix rgb"
  have prep: "tcp_prepare env frm (max_width s) (max_height s)
                = Inr (int (cols rgb), int (rows rgb), ?p)"
    using tcp_prepare_no_resize [OF assms(2), of "max_width s" "max_height s"] assms
    by simp
  obtain t where t: "update_frame env frm s = Inr t" "latest_frame_data t = Some ?p"
    using update_frame_latest [OF assms(1) prep] by blast
  have len: "length (pix rgb) = cols frm * rows frm * 3"
    using assms(3,4,5) by (simp add: frame_ok_def mult.commute)
  have hdr: "packet_header ?p = [0, 2, int (cols frm), int (rows frm), 1, 3]"
    unfolding packet_header_fields
    using sint_word_of_nat_32 [OF assms(8)] sint_word_of_nat_32 [OF assms(9)] by simp
  have "length ?p = 24 + cols frm * rows frm * 3"
    by (simp add: length_le32 len)
  moreover have "drop 24 ?p = pix rgb"
    by (simp add: length_le32)
  ultimately show ?thesis
    using t hdr len by blast
qed

theorem C1_packet_within_bound_witness:
  "\<exists>t. update_frame sample_env small_frame fresh = Inr t
       \<and> latest_frame_data t
           = Some ([0, 0, 0, 0, 2, 0, 0, 0, 2, 0, 0, 0, 1, 0, 0, 0, 1, 0, 0, 0, 3, 0, 0, 0]
                   @ [30, 20, 10, 60, 50, 40])"
proof -
  have "\<exists>t p. update_frame sample_env small_frame fresh = Inr t \<and> latest_frame_data t = Some p
           \<and> p = le32 0 @ le32 2 @ le32 (word_of_nat (cols small_frame))
                   @ le32 (word_of_nat (rows small_frame)) @ le32 1 @ le32 3
                   @ pix (small_frame\<lparr>pix := swap_channels (pix small_frame)\<rparr>)
           \<and> packet_header p = [0, 2, int (cols small_frame), int (rows small_frame), 1, 3]
           \<and> length p = 24 + cols small_frame * rows small_frame * 3
           \<and> drop 24 p = pix (small_frame\<lparr>pix := swap_channels (pix small_frame)\<rparr>)
           \<and> length (pix (small_frame\<lparr>pix := swap_channels (pix small_frame)\<rparr>))
               = cols small_frame * rows small_frame * 3"
    by (rule C1_packet_within_bound [where jpg = "[255, 216, 255, 217]"])
      (simp_all add: sample_env_def small_frame_def fresh_def init_def frame_ok_def)
  then show ?thesis
    by (auto simp: small_frame_def le32_def)
qed

subsection \<open>Exceptions that leave \<^verbatim>\<open>update_frame\<close> and \<^verbatim>\<open>start\<close>\<close>

text \<open>Only \<^verbatim>\<open>imencode\<close> can make \<^verbatim>\<open>update_frame\<close> raise: the three later steps are each
  inside a \<^verbatim>\<open>try\<close>.\<close>

lemma update_frame_returns_iff:
  "(\<exists>t. update_frame env frm s = Inr t) \<longleftrightarrow> (\<exists>jpg. cv_imencode env frm = Inr jpg)"
  by (cases "cv_imencode env frm") (simp_all add: update_frame_def)

lemma update_frame_raises:
  "cv_imencode env frm = Inl e \<Longrightarrow> update_frame env frm s = Inl e"
  by (simp add: update_frame_def)

text \<open>
  C3. The JPEG step is not isolated: on an empty frame \<^verbatim>\<open>imencode\<close> raises, the
  exception leaves \<^verbatim>\<open>update_frame\<close>, and the file, camera and TCP steps of that call do
  not run.
\<close>

theorem C3_encode_failure_propagates:
  "update_frame sample_env empty_frame started = Inl CvError"
  by (simp add: update_frame_def sample_env_def empty_frame_def)

text \<open>Only the \<^verbatim>\<open>HTTPServer\<close> constructor can make \<^verbatim>\<open>start\<close> raise; a failure of the TCP
  socket is caught, reported, and leaves the HTTP server set up.\<close>

lemma start_returns_iff:
  "(\<exists>t. start w s = Inr t) \<longleftrightarrow> (\<exists>u. http_bind w = Inr u)"
  by (cases "http_bind w") (simp_all add: start_def)

lemma start_tcp_failure_caught:
  assumes "http_bind w = Inr u" "tcp_listen w = Inl e"
  shows "\<exists>t. start w s = Inr t \<and> server t = Some \<lparr>frame_bytes = None\<rparr>
           \<and> tcp_socket t = None \<and> last (effects t) = Print (TcpSocketFailed e)"
  using assms
  by (auto simp: start_def start_tcp_def start_virtual_cam_def emit_def split: sum.splits)

text \<open>
  C6. A bind failure on the HTTP port is not caught: the exception of the
  \<^verbatim>\<open>HTTPServer\<close> constructor leaves \<^verbatim>\<open>start\<close>, and neither the virtual camera nor the
  TCP sink is set up.
\<close>

theorem C6_http_bind_failure_propagates:
  "start http_port_in_use fresh = Inl OSError"
  by (simp add: start_def http_port_in_use_def)

subsection \<open>\<^verbatim>\<open>stop\<close>\<close>

lemma stop_emits: "\<exists>es. stop w s = emit es s"
proof -
  have e: "\<And>a b t. emit a (emit b t) = emit (b @ a) t" by (simp add: emit_def)
  have n: "s = emit [] s" by (simp add: emit_def)
  show ?thesis
    unfolding stop_def Let_def
    by (cases "server s"; cases "tcp_client s"; cases "tcp_socket s"; cases "virtual_cam s";
        cases "client_close w"; cases "socket_close w"; cases "cam_close w")
      (auto simp: emit_fields e emit_def intro: exI [of _ "[]"])
qed

lemma started_value:
  "started = \<lparr>port = 8080, tcp_port = 8081, server = Some \<lparr>frame_bytes = None\<rparr>,
      thread = True, tcp_socket = Some 5, tcp_client = None, tcp_thread = True,
      max_width = 640, max_height = 480, frame_count = 0, latest_frame_data = None,
      use_virtual_cam = False, virtual_cam = None,
      local_file_path = ''/home/user/max_video_frame.jpg'', accept_pc = Listening,
      effects = [HttpBind 8080, HttpServeForever, Print (StreamAvailable 8080),
                 Print (SingleFrameAvailable 8080),
                 Print (LocalFileUpdated ''/home/user/max_video_frame.jpg''),
                 Print (MaxPatchRead ''/home/user/max_video_frame.jpg''),
                 SockBind 5 8081, Print (TcpListening 8081)]\<rparr>"
  by (simp add: started_def start_def start_ok_def fresh_def init_def start_tcp_def
      start_virtual_cam_def emit_def)

lemma connected_value:
  "connected = started\<lparr>tcp_client := Some 7, accept_pc := Sending,
      effects := effects started @ [Print (ClientConnected 7)]\<rparr>"
  by (simp add: connected_def tcp_accept_loop_step_def client_arrives_def started_value
      emit_def)

lemma small_packet:
  "tcp_prepare sample_env small_frame 640 480 =
     Inr (2, 1, [0, 0, 0, 0, 2, 0, 0, 0, 2, 0, 0, 0, 1, 0, 0, 0, 1, 0, 0, 0, 3, 0, 0, 0,
                 30, 20, 10, 60, 50, 40])"
  by (simp add: tcp_prepare_def sample_env_def small_frame_def matrix_packet_def
      pack_ii_def pack_i_def le32_def)

lemma streaming_value:
  "streaming = connected\<lparr>server := Some \<lparr>frame_bytes = Some [255, 216, 255, 217]\<rparr>,
      latest_frame_data :=
        Some [0, 0, 0, 0, 2, 0, 0, 0, 2, 0, 0, 0, 1, 0, 0, 0, 1, 0, 0, 0, 3, 0, 0, 0,
              30, 20, 10, 60, 50, 40],
      frame_count := 1,
      effects := effects connected @
        [ImWrite ''/home/user/max_video_frame.jpg'' small_frame,
         Print (LocalFileSaved ''/home/user/max_video_frame.jpg''),
         Print (FirstFramePrepared 2 1 30)]\<rparr>"
proof -
  have i: "cv_imencode sample_env small_frame = Inr [255, 216, 255, 217]"
    by (simp add: sample_env_def small_frame_def)
  have w: "cv_imwrite sample_env ''/home/user/max_video_frame.jpg'' small_frame = Inr True"
    by (simp add: sample_env_def)
  show ?thesis
    unfolding streaming_def update_frame_def i
    by (simp add: connected_value started_value publish_jpeg_def file_snapshot_step_def w
        virtual_cam_step_def tcp_sink_step_def small_packet emit_def)
qed

text \<open>
  C8. After \<^verbatim>\<open>start\<close>, a client and one frame, \<^verbatim>\<open>stop\<close> shuts the HTTP server down and
  closes the client socket and the listening TCP socket, and a second \<^verbatim>\<open>stop\<close> does the
  same again; \<^verbatim>\<open>server_close()\<close> is never called, so the listening socket of the HTTP
  server is still open after both.
\<close>

theorem C8_stop_leaves_http_socket_open:
  "effects (stop stop_ok streaming)
     = effects streaming @ [HttpShutdown, SockClose 7, SockClose 5]
   \<and> effects (stop stop_ok (stop stop_ok streaming))
     = effects streaming @ [HttpShutdown, SockClose 7, SockClose 5,
                            HttpShutdown, SockClose 7, SockClose 5]
   \<and> http_socket_open (effects (stop stop_ok (stop stop_ok streaming)))"
  by (simp add: stop_def stop_ok_def streaming_value connected_value started_value emit_def
      http_socket_open_def)

subsection \<open>The send loop\<close>

lemma send_tick_sends:
  assumes "accept_pc s = Sending" "tcp_client s = Some c" "latest_frame_data s = Some d"
    and "d \<noteq> []" "sendall_out w = Inr u"
  shows "tcp_accept_loop_step w s = emit [SockSend c d] s"
  using assms by (simp add: tcp_accept_loop_step_def)

lemma send_tick_idle:
  assumes "accept_pc s = Sending" "tcp_client s = Some c" "latest_frame_data s = None"
  shows "tcp_accept_loop_step w s = s"
  using assms by (simp add: tcp_accept_loop_step_def)

lemma send_ticks_resend:
  assumes "accept_pc s = Sending" "tcp_client s = Some c" "latest_frame_data s = Some d"
    and "d \<noteq> []" "list_all (\<lambda>w. sendall_out w = Inr ()) ws"
  shows "tcp_accept_loop ws s = emit (replicate (length ws) (SockSend c d)) s"
  using assms
proof (induction ws arbitrary: s)
  case Nil
  then show ?case by (simp add: emit_def)
next
  case (Cons w ws)
  have step: "tcp_accept_loop_step w s = emit [SockSend c d] s"
    using Cons.prems by (intro send_tick_sends) simp_all
  have "tcp_accept_loop ws (emit [SockSend c d] s)
          = emit (replicate (length ws) (SockSend c d)) (emit [SockSend c d] s)"
    using Cons.prems by (intro Cons.IH) (simp_all add: emit_def)
  then show ?case
    by (simp add: step emit_def replicate_append_same)
qed

lemma send_ticks_idle:
  assumes "accept_pc s = Sending" "tcp_client s = Some c" "latest_frame_data s = None"
  shows "tcp_accept_loop ws s = s"
  using assms by (induction ws) (simp_all add: send_tick_idle)

text \<open>
  C4, as the code has it. While a client is connected and a packet is available, every
  turn of the send loop whose \<^verbatim>\<open>sendall\<close> returns writes the current packet, whether or
  not it has changed since the last send: over any number of turns with no new packet
  the client receives the same bytes once per turn. Nothing is written only while no
  packet has been published.
\<close>

theorem C4_packet_sent_every_tick:
  assumes "accept_pc s = Sending" "tcp_client s = Some c"
  shows "(latest_frame_data s = Some d \<and> d \<noteq> [] \<and> list_all (\<lambda>w. sendall_out w = Inr ()) ws
            \<longrightarrow> effects (tcp_accept_loop ws s)
                  = effects s @ replicate (length ws) (SockSend c d)
                \<and> latest_frame_data (tcp_accept_loop ws s) = Some d)
       \<and> (latest_frame_data s = None \<longrightarrow> effects (tcp_accept_loop ws s) = effects s)"
  using send_ticks_resend [OF assms, of d ws] send_ticks_idle [OF assms, of ws]
  by (auto simp: emit_def)

theorem C4_packet_sent_every_tick_witness:
  "effects (tcp_accept_loop [send_ok, send_ok, send_ok] streaming)
     = effects streaming @
         replicate 3 (SockSend 7 [0, 0, 0, 0, 2, 0, 0, 0, 2, 0, 0, 0, 1, 0, 0, 0, 1, 0, 0, 0,
                                  3, 0, 0, 0, 30, 20, 10, 60, 50, 40])
   \<and> effects (tcp_accept_loop [send_ok, send_ok] connected) = effects connected"
proof -
  have a: "accept_pc streaming = Sending" "tcp_client streaming = Some 7"
    by (simp_all add: streaming_value connected_value)
  have b: "accept_pc connected = Sending" "tcp_client connected = Some 7"
    by (simp_all add: connected_value)
  have "latest_frame_data connected = None"
    by (simp add: connected_value started_value)
  then have "effects (tcp_accept_loop [send_ok, send_ok] connected) = effects connected"
    using C4_packet_sent_every_tick [OF b, of "[]" "[send_ok, send_ok]"] by simp
  moreover have "latest_frame_data streaming =
      Some [0, 0, 0, 0, 2, 0, 0, 0, 2, 0, 0, 0, 1, 0, 0, 0, 1, 0, 0, 0, 3, 0, 0, 0,
            30, 20, 10, 60, 50, 40]"
    by (simp add: streaming_value)
  then have "effects (tcp_accept_loop [send_ok, send_ok, send_ok] streaming)
     = effects streaming @
         replicate (length [send_ok, send_ok, send_ok])
           (SockSend 7 [0, 0, 0, 0, 2, 0, 0, 0, 2, 0, 0, 0, 1, 0, 0, 0, 1, 0, 0, 0,
                        3, 0, 0, 0, 30, 20, 10, 60, 50, 40])"
    using C4_packet_sent_every_tick [OF a,
        of "[0, 0, 0, 0, 2, 0, 0, 0, 2, 0, 0, 0, 1, 0, 0, 0, 1, 0, 0, 0, 3, 0, 0, 0,
             30, 20, 10, 60, 50, 40]" "[send_ok, send_ok, send_ok]"]
    by (simp add: send_ok_def)
  ultimately show ?thesis by (simp add: eval_nat_numeral)
qed

text \<open>C4 as stated fails: two turns in a row, with no \<^verbatim>\<open>update_frame\<close> between them,
  both write the one packet.\<close>

theorem C4_counterexample:
  "latest_frame_data (tcp_accept_loop_step send_ok streaming) = latest_frame_data streaming
   \<and> effects (tcp_accept_loop_step send_ok (tcp_accept_loop_step send_ok streaming))
       = effects streaming @
           [SockSend 7 [0, 0, 0, 0, 2, 0, 0, 0, 2, 0, 0, 0, 1, 0, 0, 0, 1, 0, 0, 0,
                        3, 0, 0, 0, 30, 20, 10, 60, 50, 40],
            SockSend 7 [0, 0, 0, 0, 2, 0, 0, 0, 2, 0, 0, 0, 1, 0, 0, 0, 1, 0, 0, 0,
                        3, 0, 0, 0, 30, 20, 10, 60, 50, 40]]"
  by (simp add: tcp_accept_loop_step_def send_ok_def streaming_value connected_value
      started_value emit_def)

text \<open>
  C5, as the code has it. When \<^verbatim>\<open>sendall\<close> raises, the send loop ends and the thread is
  back at \<^verbatim>\<open>accept\<close>; \<open>tcp_client\<close> is not cleared and still names the failed client.
  The next client accepted replaces it and is sent the latest packet on the next turn.
\<close>

theorem C5_send_failure_resumes_accept:
  assumes "accept_pc s = Sending" "tcp_client s = Some c" "tcp_socket s = Some sk"
    and "latest_frame_data s = Some d" "d \<noteq> []"
    and "sendall_out w1 = Inl e" "accept_out w2 = Accepted c2" "sendall_out w3 = Inr ()"
  shows "tcp_accept_loop_step w1 s = s\<lparr>accept_pc := Listening\<rparr>
       \<and> tcp_client (tcp_accept_loop_step w1 s) = Some c
       \<and> tcp_client (tcp_accept_loop [w1, w2] s) = Some c2
       \<and> accept_pc (tcp_accept_loop [w1, w2] s) = Sending
       \<and> effects (tcp_accept_loop [w1, w2, w3] s)
           = effects s @ [Print (ClientConnected c2), SockSend c2 d]"
  using assms by (simp add: tcp_accept_loop_step_def emit_def)

theorem C5_send_failure_resumes_accept_witness:
  "tcp_accept_loop_step send_fails streaming = streaming\<lparr>accept_pc := Listening\<rparr>
   \<and> tcp_client (tcp_accept_loop_step send_fails streaming) = Some 7
   \<and> tcp_client (tcp_accept_loop [send_fails, second_client_arrives] streaming) = Some 8
   \<and> accept_pc (tcp_accept_loop [send_fails, second_client_arrives] streaming) = Sending
   \<and> effects (tcp_accept_loop [send_fails, second_client_arrives, send_ok] streaming)
       = effects streaming @
           [Print (ClientConnected 8),
            SockSend 8 [0, 0, 0, 0, 2, 0, 0, 0, 2, 0, 0, 0, 1, 0, 0, 0, 1, 0, 0, 0,
                        3, 0, 0, 0, 30, 20, 10, 60, 50, 40]]"
  by (rule C5_send_failure_resumes_accept [where sk = 5 and e = OSError])
    (simp_all add: streaming_value connected_value started_value send_fails_def
      second_client_arrives_def send_ok_def)

text \<open>C5 as stated fails: after the failed send \<open>tcp_client\<close> is still set.\<close>

theorem C5_counterexample:
  "tcp_client (tcp_accept_loop_step send_fails streaming) = Some 7
   \<and> accept_pc (tcp_accept_loop_step send_fails streaming) = Listening"
  by (simp add: tcp_accept_loop_step_def send_fails_def streaming_value connected_value
      started_value)

subsection \<open>The report of a failed file write\<close>

lemma reports_emit:
  "file_failure_reports (emit es s) = file_failure_reports s
     + length (filter (\<lambda>x. case x of Print (LocalFileFailed _) \<Rightarrow> True | _ \<Rightarrow> False) es)"
  by (simp add: file_failure_reports_def emit_def)

lemma reports_publish_jpeg:
  "file_failure_reports (publish_jpeg jpg s) = file_failure_reports s"
  by (simp add: file_failure_reports_def publish_jpeg_fields)

lemma reports_file_snapshot_step:
  assumes "cv_imwrite env (local_file_path s) frm = Inl e"
  shows "file_failure_reports (file_snapshot_step env frm s)
           = file_failure_reports s + (if frame_count s = 0 then 1 else 0)"
  using assms by (simp add: file_snapshot_step_def Let_def reports_emit emit_fields)

lemma reports_virtual_cam_step:
  "file_failure_reports (virtual_cam_step env frm s) = file_failure_reports s"
proof (cases "virtual_cam s")
  case None
  then show ?thesis by (simp add: virtual_cam_step_def)
next
  case (Some c)
  obtain es r where b: "virtual_cam_body env frm c (max_width s) (max_height s) = (es, r)"
    by (cases "virtual_cam_body env frm c (max_width s) (max_height s)")
  have "filter (\<lambda>x. case x of Print (LocalFileFailed _) \<Rightarrow> True | _ \<Rightarrow> False) es = []"
    using b by (auto simp: virtual_cam_body_def split: sum.splits if_splits)
  then show ?thesis
    using Some b by (cases r) (simp_all add: virtual_cam_step_def reports_emit)
qed

lemma reports_tcp_sink_step:
  "file_failure_reports (tcp_sink_step env frm s) = file_failure_reports s"
proof (cases "tcp_prepare env frm (max_width s) (max_height s)")
  case (Inl e)
  then show ?thesis by (simp add: tcp_sink_step_def reports_emit)
next
  case (Inr r)
  obtain w h p where r: "r = (w, h, p)" by (cases r)
  have "\<And>n. file_failure_reports (s\<lparr>latest_frame_data := Some p, frame_count := n\<rparr>)
          = file_failure_reports s"
    by (simp add: file_failure_reports_def)
  then show ?thesis
    using Inr r by (simp add: tcp_sink_step_def Let_def reports_emit)
qed

text \<open>
  C7, as the code has it. An exception of the file write is swallowed: \<^verbatim>\<open>update_frame\<close>
  returns. It is reported in that call exactly when \<open>frame_count\<close> is still 0, that is,
  before the first MatrixPacket has been built; a failure at a later update is not
  reported.
\<close>

theorem C7_write_failure_reported_at_count_zero:
  assumes "cv_imencode env frm = Inr jpg"
    and "cv_imwrite env (local_file_path s) frm = Inl e"
  shows "\<exists>t. update_frame env frm s = Inr t
           \<and> file_failure_reports t
               = file_failure_reports s + (if frame_count s = 0 then 1 else 0)"
proof -
  have "cv_imwrite env (local_file_path (publish_jpeg jpg s)) frm = Inl e"
    using assms(2) by (simp add: publish_jpeg_fields)
  then have "file_failure_reports (file_snapshot_step env frm (publish_jpeg jpg s))
      = file_failure_reports s + (if frame_count s = 0 then 1 else 0)"
    by (simp add: reports_file_snapshot_step reports_publish_jpeg publish_jpeg_fields)
  then show ?thesis
    using assms(1)
    by (simp add: update_frame_def reports_tcp_sink_step reports_virtual_cam_step)
qed

theorem C7_write_failure_reported_at_count_zero_witness:
  "\<exists>t. update_frame write_fails_env small_frame started = Inr t
       \<and> file_failure_reports t = 1"
proof -
  have "\<exists>t. update_frame write_fails_env small_frame started = Inr t
           \<and> file_failure_reports t
               = file_failure_reports started + (if frame_count started = 0 then 1 else 0)"
    by (rule C7_write_failure_reported_at_count_zero
          [where jpg = "[255, 216, 255, 217]" and e = OSError])
      (simp_all add: write_fails_env_def sample_env_def small_frame_def)
  then show ?thesis
    by (simp add: started_value file_failure_reports_def)
qed

text \<open>C7 as stated fails: the first update succeeds, the write of the second raises,
  and that first failure is reported nowhere.\<close>

theorem C7_counterexample:
  "frame_count streaming = 1
   \<and> file_failure_reports streaming = 0
   \<and> map_sum id file_failure_reports (update_frame write_fails_env small_frame streaming)
       = Inr 0"
proof -
  have i: "cv_imencode write_fails_env small_frame = Inr [255, 216, 255, 217]"
    by (simp add: write_fails_env_def sample_env_def small_frame_def)
  have w: "cv_imwrite write_fails_env (local_file_path streaming) small_frame = Inl OSError"
    by (simp add: write_fails_env_def)
  have c: "frame_count streaming = 1" "file_failure_reports streaming = 0"
    by (simp_all add: streaming_value connected_value started_value file_failure_reports_def)
  have "file_failure_reports (file_snapshot_step write_fails_env small_frame
          (publish_jpeg [255, 216, 255, 217] streaming)) = 0"
    using w c
    by (subst reports_file_snapshot_step [where e = OSError])
      (simp_all add: publish_jpeg_fields reports_publish_jpeg)
  then show ?thesis
    using c by (simp add: update_frame_def i reports_tcp_sink_step reports_virtual_cam_step)
qed

subsection \<open>What one \<^verbatim>\<open>update_frame\<close> publishes\<close>

lemma update_frame_result:
  assumes "cv_imencode env frm = Inr jpg"
    and "tcp_prepare env frm (max_width s) (max_height s) = Inr (w, h, p)"
  shows "\<exists>t. update_frame env frm s = Inr t
           \<and> server t = server (publish_jpeg jpg s)
           \<and> latest_frame_data t = Some p
           \<and> frame_count t = frame_count s + 1"
proof -
  obtain es where e: "virtual_cam_step env frm (file_snapshot_step env frm (publish_jpeg jpg s))
                        = emit es (publish_jpeg jpg s)"
    using sinks_before_tcp_emit by blast
  let ?u = "emit es (publish_jpeg jpg s)"
  have prep: "tcp_prepare env frm (max_width ?u) (max_height ?u) = Inr (w, h, p)"
    using assms(2) by (simp add: emit_fields publish_jpeg_fields)
  have "server (tcp_sink_step env frm ?u) = server ?u"
    "latest_frame_data (tcp_sink_step env frm ?u) = Some p"
    "frame_count (tcp_sink_step env frm ?u) = frame_count ?u + 1"
    using prep by (simp_all add: tcp_sink_step_def Let_def emit_def)
  then show ?thesis
    using assms(1) e by (simp add: update_frame_def emit_fields publish_jpeg_fields)
qed

subsection \<open>The two copies of the server\<close>

text \<open>The methods that are the same text in both files are the same functions.\<close>

lemma depth_file_snapshot_step_same: "depth_file_snapshot_step = file_snapshot_step"
  by (intro ext) (simp add: depth_file_snapshot_step_def file_snapshot_step_def)

lemma depth_virtual_cam_body_same: "depth_virtual_cam_body = virtual_cam_body"
  by (intro ext) (simp add: depth_virtual_cam_body_def virtual_cam_body_def)

lemma depth_scaled_size_same: "depth_scaled_size = scaled_size"
  by (intro ext) (simp add: depth_scaled_size_def scaled_size_def)

lemma depth_matrix_packet_same: "depth_matrix_packet = matrix_packet"
  by (intro ext) (simp add: depth_matrix_packet_def matrix_packet_def)

lemma depth_publish_jpeg_same: "depth_publish_jpeg = publish_jpeg"
  by (intro ext) (simp add: depth_publish_jpeg_def publish_jpeg_def)

lemma depth_start_tcp_same: "depth_start_tcp = start_tcp"
  by (intro ext) (simp add: depth_start_tcp_def start_tcp_def)

lemma depth_stop_same: "depth_stop = stop"
  by (intro ext) (simp add: depth_stop_def stop_def)

lemmas depth_steps_same =
  depth_file_snapshot_step_same depth_virtual_cam_body_same depth_scaled_size_same
  depth_matrix_packet_same depth_publish_jpeg_same depth_start_tcp_same depth_stop_same

lemma depth_virtual_cam_step_same: "depth_virtual_cam_step = virtual_cam_step"
  unfolding depth_virtual_cam_step_def virtual_cam_step_def depth_steps_same
  by (rule refl)

lemma depth_tcp_prepare_same: "depth_tcp_prepare = tcp_prepare"
  unfolding depth_tcp_prepare_def tcp_prepare_def depth_steps_same
  by (rule refl)

lemma depth_tcp_sink_step_same: "depth_tcp_sink_step = tcp_sink_step"
  unfolding depth_tcp_sink_step_def tcp_sink_step_def depth_tcp_prepare_same
  by (rule refl)

lemma depth_update_frame_same: "depth_update_frame = update_frame"
  unfolding depth_update_frame_def update_frame_def depth_steps_same
    depth_virtual_cam_step_same depth_tcp_sink_step_same
  by (rule refl)

lemma depth_stream_loop_same: "depth_stream_loop turns = stream_loop turns"
  by (induction turns rule: stream_loop.induct) (simp_all split: option.splits)

lemma depth_do_GET_same: "depth_do_GET = do_GET"
  by (intro ext) (simp add: depth_do_GET_def do_GET_def depth_stream_loop_same)

text \<open>The copies differ in the default path of the file snapshot and in what \<^verbatim>\<open>start\<close>
  prints; neither reaches a field other than \<open>local_file_path\<close> and the history.\<close>

lemma core_emit: "core (emit es s) = core s"
  by (simp add: core_def emit_def)

lemma core_init: "core (depth_init home p tp mw mh path cam) = core (init home p tp mw mh path cam)"
  by (simp add: core_def depth_init_def init_def)

lemma core_eq_fields:
  assumes "core s = core t"
  shows "server s = server t" "latest_frame_data s = latest_frame_data t"
    "max_width s = max_width t" "max_height s = max_height t"
    "frame_count s = frame_count t" "use_virtual_cam s = use_virtual_cam t"
    "virtual_cam s = virtual_cam t" "tcp_client s = tcp_client t"
    "tcp_socket s = tcp_socket t"
proof -
  have "server (core s) = server (core t)" using assms by simp
  then show "server s = server t" by (simp add: core_def)
  have "latest_frame_data (core s) = latest_frame_data (core t)" using assms by simp
  then show "latest_frame_data s = latest_frame_data t" by (simp add: core_def)
  have "max_width (core s) = max_width (core t)" using assms by simp
  then show "max_width s = max_width t" by (simp add: core_def)
  have "max_height (core s) = max_height (core t)" using assms by simp
  then show "max_height s = max_height t" by (simp add: core_def)
  have "frame_count (core s) = frame_count (core t)" using assms by simp
  then show "frame_count s = frame_count t" by (simp add: core_def)
  have "use_virtual_cam (core s) = use_virtual_cam (core t)" using assms by simp
  then show "use_virtual_cam s = use_virtual_cam t" by (simp add: core_def)
  have "virtual_cam (core s) = virtual_cam (core t)" using assms by simp
  then show "virtual_cam s = virtual_cam t" by (simp add: core_def)
  have "tcp_client (core s) = tcp_client (core t)" using assms by simp
  then show "tcp_client s = tcp_client t" by (simp add: core_def)
  have "tcp_socket (core s) = tcp_socket (core t)" using assms by simp
  then show "tcp_socket s = tcp_socket t" by (simp add: core_def)
qed

lemma core_update:
  "core (s\<lparr>server := a\<rparr>) = (core s)\<lparr>server := a\<rparr>"
  "core (s\<lparr>thread := b\<rparr>) = (core s)\<lparr>thread := b\<rparr>"
  "core (s\<lparr>virtual_cam := c\<rparr>) = (core s)\<lparr>virtual_cam := c\<rparr>"
  "core (s\<lparr>use_virtual_cam := d\<rparr>) = (core s)\<lparr>use_virtual_cam := d\<rparr>"
  "core (s\<lparr>tcp_socket := e\<rparr>) = (core s)\<lparr>tcp_socket := e\<rparr>"
  "core (s\<lparr>tcp_thread := f\<rparr>) = (core s)\<lparr>tcp_thread := f\<rparr>"
  "core (s\<lparr>accept_pc := g\<rparr>) = (core s)\<lparr>accept_pc := g\<rparr>"
  "core (s\<lparr>latest_frame_data := h\<rparr>) = (core s)\<lparr>latest_frame_data := h\<rparr>"
  "core (s\<lparr>frame_count := i\<rparr>) = (core s)\<lparr>frame_count := i\<rparr>"
  by (simp_all add: core_def)

lemma core_publish_jpeg:
  assumes "core s = core t"
  shows "core (publish_jpeg jpg s) = core (publish_jpeg jpg t)"
  using assms core_eq_fields(1) [OF assms]
  by (simp add: publish_jpeg_def core_update split: option.splits)

lemma core_tcp_sink_step:
  assumes "core s = core t"
  shows "core (tcp_sink_step env frm s) = core (tcp_sink_step env frm t)"
proof -
  note f = core_eq_fields [OF assms]
  show ?thesis
  proof (cases "tcp_prepare env frm (max_width t) (max_height t)")
    case (Inl e)
    then show ?thesis using assms f by (simp add: tcp_sink_step_def core_emit)
  next
    case (Inr r)
    obtain w h p where r: "r = (w, h, p)" by (cases r)
    show ?thesis
      using Inr r assms f by (simp add: tcp_sink_step_def Let_def core_emit core_update)
  qed
qed

lemma core_update_frame:
  assumes "core s = core t"
  shows "map_sum id core (update_frame env frm s) = map_sum id core (update_frame env frm t)"
proof (cases "cv_imencode env frm")
  case (Inl e)
  then show ?thesis by (simp add: update_frame_def)
next
  case (Inr jpg)
  obtain es where a: "virtual_cam_step env frm (file_snapshot_step env frm (publish_jpeg jpg s))
                        = emit es (publish_jpeg jpg s)"
    using sinks_before_tcp_emit by blast
  obtain es' where b: "virtual_cam_step env frm (file_snapshot_step env frm (publish_jpeg jpg t))
                         = emit es' (publish_jpeg jpg t)"
    using sinks_before_tcp_emit by blast
  have "core (emit es (publish_jpeg jpg s)) = core (emit es' (publish_jpeg jpg t))"
    using core_publish_jpeg [OF assms] by (simp add: core_emit)
  then have "core (tcp_sink_step env frm (emit es (publish_jpeg jpg s)))
           = core (tcp_sink_step env frm (emit es' (publish_jpeg jpg t)))"
    by (rule core_tcp_sink_step)
  then show ?thesis
    using Inr a b by (simp add: update_frame_def)
qed

lemma core_stop: "core (stop w s) = core s"
proof -
  obtain es where "stop w s = emit es s" using stop_emits by blast
  then show ?thesis by (simp add: core_emit)
qed

lemma core_start_virtual_cam:
  assumes "core s = core t"
  shows "core (depth_start_virtual_cam w s) = core (start_virtual_cam w t)"
  using assms core_eq_fields(6) [OF assms]
  by (simp add: depth_start_virtual_cam_def start_virtual_cam_def core_emit core_update
      split: sum.splits)

lemma core_start_tcp:
  assumes "core s = core t"
  shows "core (start_tcp w s) = core (start_tcp w t)"
  using assms by (simp add: start_tcp_def core_emit core_update split: sum.splits)

lemma core_start:
  assumes "core s = core t"
  shows "map_sum id core (depth_start w s) = map_sum id core (start w t)"
proof (cases "http_bind w")
  case (Inl e)
  then show ?thesis by (simp add: depth_start_def start_def)
next
  case (Inr u)
  let ?s = "s\<lparr>server := Some \<lparr>frame_bytes = None\<rparr>, thread := True\<rparr>"
  let ?t = "t\<lparr>server := Some \<lparr>frame_bytes = None\<rparr>, thread := True\<rparr>"
  have a: "\<And>es es'. core (emit es ?s) = core (emit es' ?t)"
    using assms by (simp add: core_emit core_update)
  have b: "\<And>es es'. core (depth_start_virtual_cam w (emit es ?s))
                     = core (start_virtual_cam w (emit es' ?t))"
    by (rule core_start_virtual_cam) (rule a)
  have c: "\<And>es es'. core (start_tcp w (depth_start_virtual_cam w (emit es ?s)))
                     = core (start_tcp w (start_virtual_cam w (emit es' ?t)))"
    by (rule core_start_tcp) (rule b)
  show ?thesis
    unfolding depth_start_def start_def depth_start_tcp_same using Inr by (simp add: c)
qed

lemma core_calls:
  assumes "core s = core t"
  shows "map_sum id core (depth_calls cs s) = map_sum id core (calls cs t)"
  using assms
proof (induction cs arbitrary: s t)
  case Nil
  then show ?case by simp
next
  case (Cons c cs)
  show ?case
  proof (cases c)
    case (Start w)
    have r: "map_sum id core (depth_start w s) = map_sum id core (start w t)"
      using Cons.prems by (rule core_start)
    show ?thesis
    proof (cases "depth_start w s")
      case (Inl e)
      with r have "start w t = Inl e" by (cases "start w t") simp_all
      with Inl Start show ?thesis by simp
    next
      case (Inr s')
      with r obtain t' where t': "start w t = Inr t'" "core s' = core t'"
        by (cases "start w t") simp_all
      with Inr Start Cons.IH [OF t'(2)] show ?thesis by simp
    qed
  next
    case (UpdateFrame env frm)
    have r: "map_sum id core (update_frame env frm s) = map_sum id core (update_frame env frm t)"
      using Cons.prems by (rule core_update_frame)
    show ?thesis
    proof (cases "update_frame env frm s")
      case (Inl e)
      with r have "update_frame env frm t = Inl e"
        by (cases "update_frame env frm t") simp_all
      with Inl UpdateFrame show ?thesis by (simp add: depth_update_frame_same)
    next
      case (Inr s')
      with r obtain t' where t': "update_frame env frm t = Inr t'" "core s' = core t'"
        by (cases "update_frame env frm t") simp_all
      with Inr UpdateFrame Cons.IH [OF t'(2)] show ?thesis
        by (simp add: depth_update_frame_same)
    qed
  next
    case (Stop w)
    have "core (stop w s) = core (stop w t)"
      using Cons.prems by (simp add: core_stop)
    with Stop Cons.IH [OF this] show ?thesis by (simp add: depth_steps_same)
  qed
qed

lemma published_core: "published (core s) = published s"
  by (simp add: published_def core_def)

text \<open>
  C9. The two copies are equivalent. On one server object their \<^verbatim>\<open>update_frame\<close> are
  the same function, and their handlers answer a request alike. Constructed with the
  same arguments (the default file paths differ) and driven by the same calls with the
  same outcomes of the external calls, both raise the same exception or both return
  with the same published JPEG and the same published MatrixPacket.
\<close>

theorem C9_copies_equivalent:
  "depth_update_frame env frm s = update_frame env frm s
   \<and> depth_do_GET request srv turns = do_GET request srv turns
   \<and> map_sum id published (depth_calls cs (depth_init home p tp mw mh path cam))
       = map_sum id published (calls cs (init home p tp mw mh path cam))"
proof -
  have "map_sum id core (depth_calls cs (depth_init home p tp mw mh path cam))
          = map_sum id core (calls cs (init home p tp mw mh path cam))"
    by (rule core_calls) (rule core_init)
  then have "map_sum id published
               (map_sum id core (depth_calls cs (depth_init home p tp mw mh path cam)))
           = map_sum id published
               (map_sum id core (calls cs (init home p tp mw mh path cam)))"
    by simp
  then have "map_sum id published (depth_calls cs (depth_init home p tp mw mh path cam))
           = map_sum id published (calls cs (init home p tp mw mh path cam))"
    by (simp add: sum.map_comp comp_def published_core id_def)
  then show ?thesis
    by (simp add: depth_update_frame_same depth_do_GET_same)
qed

theorem C9_copies_equivalent_witness:
  "map_sum id published
     (depth_calls [Start start_ok, UpdateFrame sample_env small_frame]
        (depth_init ''/home/user'' 8080 8081 640 480 None False))
     = Inr (Some [255, 216, 255, 217],
            Some [0, 0, 0, 0, 2, 0, 0, 0, 2, 0, 0, 0, 1, 0, 0, 0, 1, 0, 0, 0, 3, 0, 0, 0,
                  30, 20, 10, 60, 50, 40])"
proof -
  have s: "start start_ok fresh = Inr started"
    by (simp add: started_def start_def start_ok_def)
  have i: "cv_imencode sample_env small_frame = Inr [255, 216, 255, 217]"
    by (simp add: sample_env_def small_frame_def)
  have p: "tcp_prepare sample_env small_frame (max_width started) (max_height started)
             = Inr (2, 1, [0, 0, 0, 0, 2, 0, 0, 0, 2, 0, 0, 0, 1, 0, 0, 0, 1, 0, 0, 0,
                           3, 0, 0, 0, 30, 20, 10, 60, 50, 40])"
    by (simp add: started_value small_packet)
  obtain t where t: "update_frame sample_env small_frame started = Inr t"
    "server t = server (publish_jpeg [255, 216, 255, 217] started)"
    "latest_frame_data t = Some [0, 0, 0, 0, 2, 0, 0, 0, 2, 0, 0, 0, 1, 0, 0, 0, 1, 0, 0, 0,
                                 3, 0, 0, 0, 30, 20, 10, 60, 50, 40]"
    using update_frame_result [OF i p] by blast
  have "published t = (Some [255, 216, 255, 217],
          Some [0, 0, 0, 0, 2, 0, 0, 0, 2, 0, 0, 0, 1, 0, 0, 0, 1, 0, 0, 0, 3, 0, 0, 0,
                30, 20, 10, 60, 50, 40])"
    using t(2,3) by (simp add: published_def publish_jpeg_def started_value)
  then have "map_sum id published
      (calls [Start start_ok, UpdateFrame sample_env small_frame]
         (init ''/home/user'' 8080 8081 640 480 None False))
     = Inr (Some [255, 216, 255, 217],
            Some [0, 0, 0, 0, 2, 0, 0, 0, 2, 0, 0, 0, 1, 0, 0, 0, 1, 0, 0, 0, 3, 0, 0, 0,
                  30, 20, 10, 60, 50, 40])"
    using s t(1) by (simp add: fresh_def)
  then show ?thesis
    using C9_copies_equivalent
      [of sample_env small_frame started "''/frame.jpg''" "\<lparr>frame_bytes = None\<rparr>" "[]"
        "[Start start_ok, UpdateFrame sample_env small_frame]" "''/home/user''" 8080 8081
        640 480 None False]
    by simp
qed

subsection \<open>Rounding to binary64\<close>

lemma powi_nat: "0 \<le> k \<Longrightarrow> (2::rat) powi k = 2 ^ nat k"
  by (simp add: power_int_def)

lemma bitlen_rat_bounds:
  assumes "0 < p"
  shows "(2::rat) powi (bitlen p - 1) \<le> of_int p" "(of_int p :: rat) < 2 powi (bitlen p)"
proof -
  have b: "2 ^ nat (bitlen p - 1) \<le> p" "p < 2 ^ nat (bitlen p)"
    using bitlen_bounds [OF assms] by simp_all
  have ge: "1 \<le> bitlen p" using assms by (auto simp: bitlen_alt_def)
  have "(of_int (2 ^ nat (bitlen p - 1)) :: rat) \<le> of_int p"
    using b(1) by (simp only: of_int_le_iff)
  then show "(2::rat) powi (bitlen p - 1) \<le> of_int p"
    using ge by (simp add: powi_nat)
  have "(of_int p :: rat) < of_int (2 ^ nat (bitlen p))"
    using b(2) by (simp only: of_int_less_iff)
  then show "(of_int p :: rat) < 2 powi (bitlen p)"
    using ge by (simp add: powi_nat)
qed

lemma flog2_bounds:
  assumes "0 < x"
  shows "2 powi (flog2 x) \<le> x" "x < 2 powi (flog2 x + 1)"
proof -
  obtain p q where pq: "quotient_of x = (p, q)" by (cases "quotient_of x")
  have q: "0 < q" using pq by (rule quotient_of_denom_pos)
  have x: "x = of_int p / of_int q" using pq by (rule quotient_of_div)
  have p: "0 < p" using assms q unfolding x by (simp add: zero_less_divide_iff)
  define k where "k = bitlen p - bitlen q"
  note bp = bitlen_rat_bounds [OF p]
  note bq = bitlen_rat_bounds [OF q]
  have qr: "(0::rat) < of_int q" using q by simp
  have two: "(2::rat) \<noteq> 0" by simp
  have f: "flog2 x = (if of_int q * 2 powi k \<le> (of_int p :: rat) then k else k - 1)"
    by (simp add: flog2_def pq k_def Let_def)
  have lo: "2 powi (k - 1) * of_int q \<le> (of_int p :: rat)"
  proof -
    have "2 powi (k - 1) * of_int q \<le> 2 powi (k - 1) * (2::rat) powi (bitlen q)"
      using bq(2) by (intro mult_left_mono) simp_all
    also have "\<dots> = 2 powi (bitlen p - 1)"
      by (simp add: k_def power_int_add [symmetric])
    also have "\<dots> \<le> of_int p" by (rule bp(1))
    finally show ?thesis .
  qed
  have hi: "(of_int p :: rat) < 2 powi (k + 1) * of_int q"
  proof -
    have "(of_int p :: rat) < 2 powi (bitlen p)" by (rule bp(2))
    also have "\<dots> = 2 powi (k + 1) * 2 powi (bitlen q - 1)"
      by (simp add: k_def power_int_add [symmetric])
    also have "\<dots> \<le> 2 powi (k + 1) * of_int q"
      using bq(1) by (intro mult_left_mono) simp_all
    finally show ?thesis .
  qed
  have xq: "\<And>c. (c \<le> x) = (c * of_int q \<le> of_int p)" "\<And>c. (x < c) = (of_int p < c * of_int q)"
    using qr unfolding x by (simp_all add: pos_le_divide_eq pos_divide_less_eq)
  show "2 powi (flog2 x) \<le> x"
  proof (cases "of_int q * 2 powi k \<le> (of_int p :: rat)")
    case True
    then have "flog2 x = k" by (simp add: f)
    then show ?thesis using True by (simp add: xq mult.commute)
  next
    case False
    then have "flog2 x = k - 1" by (simp add: f)
    then show ?thesis using lo by (simp add: xq)
  qed
  show "x < 2 powi (flog2 x + 1)"
  proof (cases "of_int q * 2 powi k \<le> (of_int p :: rat)")
    case True
    then have "flog2 x = k" by (simp add: f)
    then show ?thesis using hi by (simp add: xq)
  next
    case False
    then have "flog2 x = k - 1" by (simp add: f)
    then show ?thesis using False by (simp add: xq mult.commute)
  qed
qed

lemma rne_error: "\<bar>of_int (rne y) - y\<bar> \<le> 1 / 2"
proof -
  have "of_int \<lfloor>y\<rfloor> \<le> y" "y < of_int \<lfloor>y\<rfloor> + 1" by linarith+
  then show ?thesis by (auto simp: rne_def Let_def)
qed


lemma fl_error:
  assumes "0 < x"
  shows "\<bar>fl x - x\<bar> \<le> x / 2 ^ 53"
proof -
  define e where "e = flog2 x - 52"
  define y where "y = x / 2 powi e"
  have pe: "(0::rat) < 2 powi e" by simp
  have xy: "x = y * 2 powi e" by (simp add: y_def)
  have f: "fl x = of_int (rne y) * 2 powi e"
    using assms by (simp add: fl_def e_def y_def Let_def)
  have "\<bar>fl x - x\<bar> = \<bar>of_int (rne y) - y\<bar> * 2 powi e"
    unfolding f by (subst xy) (simp add: abs_mult left_diff_distrib [symmetric])
  also have "\<dots> \<le> (1 / 2) * 2 powi e"
    using rne_error [of y] pe by (intro mult_right_mono) simp_all
  also have "\<dots> = 2 powi (flog2 x) / 2 ^ 53"
  proof -
    have "(2::rat) powi (e + 52) = 2 powi e * 2 powi 52"
      by (rule power_int_add) simp
    moreover have "e + 52 = flog2 x" by (simp add: e_def)
    ultimately have "(2::rat) powi (flog2 x) = 2 powi e * 2 powi 52" by simp
    then show ?thesis by simp
  qed
  also have "\<dots> \<le> x / 2 ^ 53"
    using flog2_bounds(1) [OF assms] by (simp add: divide_right_mono)
  finally show ?thesis .
qed

lemma fl_bounds:
  assumes "0 < x"
  shows "x * (1 - 1 / 2 ^ 53) \<le> fl x" "fl x \<le> x * (1 + 1 / 2 ^ 53)"
proof -
  have "fl x - x \<le> x / 2 ^ 53" "x - fl x \<le> x / 2 ^ 53"
    using fl_error [OF assms] by linarith+
  then show "x * (1 - 1 / 2 ^ 53) \<le> fl x" "fl x \<le> x * (1 + 1 / 2 ^ 53)"
    by (simp_all add: algebra_simps)
qed

subsection \<open>The target size of the downscale\<close>

lemma min_scale:
  fixes a b A B c1 c2 :: rat
  assumes "A * c1 \<le> a" "a \<le> A * c2" "B * c1 \<le> b" "b \<le> B * c2" "0 \<le> c1"
  shows "min A B * c1 \<le> min a b" "min a b \<le> min A B * c2"
proof -
  have "min A B * c1 \<le> A * c1" "min A B * c1 \<le> B * c1"
    using assms(5) by (simp_all add: mult_right_mono)
  then show "min A B * c1 \<le> min a b" using assms(1,3) by simp
  show "min a b \<le> min A B * c2"
  proof (cases "A \<le> B")
    case True
    then have m: "min A B = A" by simp
    have "min a b \<le> a" by simp
    also have "a \<le> A * c2" by (rule assms(2))
    finally show ?thesis unfolding m .
  next
    case False
    then have m: "min A B = B" by simp
    have "min a b \<le> b" by simp
    also have "b \<le> B * c2" by (rule assms(4))
    finally show ?thesis unfolding m .
  qed
qed

lemma mul_int_float_bounds:
  assumes "0 < n" "0 < sx"
    and "sx * (1 - 1 / 2 ^ 53) \<le> s" "s \<le> sx * (1 + 1 / 2 ^ 53)"
  shows "of_int n * sx * (1 - 4 / 2 ^ 53) \<le> py_mul_int_float n s"
    and "py_mul_int_float n s \<le> of_int n * sx * (1 + 4 / 2 ^ 53)"
proof -
  define c1 :: rat where "c1 = 1 - 1 / 2 ^ 53"
  define c2 :: rat where "c2 = 1 + 1 / 2 ^ 53"
  have c: "0 < c1" "0 < c2" "1 - 4 / 2 ^ 53 \<le> c1 * c1 * c1" "c2 * c2 * c2 \<le> 1 + 4 / 2 ^ 53"
    by (simp_all add: c1_def c2_def)
  define x :: rat where "x = of_int n * sx"
  have x: "0 < x" using assms(1,2) by (simp add: x_def)
  have n: "(0::rat) < of_int n" using assms(1) by simp
  define a where "a = fl (of_int n)"
  have a: "of_int n * c1 \<le> a" "a \<le> of_int n * c2"
    using fl_bounds [OF n] by (simp_all add: a_def c1_def c2_def)
  have a0: "0 < a" using a(1) n c(1) by (meson less_le_trans mult_pos_pos)
  have s: "sx * c1 \<le> s" "s \<le> sx * c2" using assms(3,4) by (simp_all add: c1_def c2_def)
  have s0: "0 < s" using s(1) assms(2) c(1) by (meson less_le_trans mult_pos_pos)
  have p0: "0 < a * s" using a0 s0 by simp
  have plo: "x * (c1 * c1) \<le> a * s"
  proof -
    have "(of_int n * c1) * (sx * c1) \<le> a * s"
      using a(1) s(1) n c(1) assms(2) a0 by (intro mult_mono) simp_all
    then show ?thesis by (simp add: x_def mult_ac)
  qed
  have phi: "a * s \<le> x * (c2 * c2)"
  proof -
    have "a * s \<le> (of_int n * c2) * (sx * c2)"
      using a(2) s(2) n c(2) assms(2) a0 s0 by (intro mult_mono) simp_all
    then show ?thesis by (simp add: x_def mult_ac)
  qed
  have f: "a * s * c1 \<le> fl (a * s)" "fl (a * s) \<le> a * s * c2"
    using fl_bounds [OF p0] by (simp_all add: c1_def c2_def)
  have "x * (c1 * c1 * c1) = x * (c1 * c1) * c1" by simp
  also have "\<dots> \<le> a * s * c1" using plo c(1) by (intro mult_right_mono) simp_all
  also have "\<dots> \<le> fl (a * s)" by (rule f(1))
  finally have lo: "x * (c1 * c1 * c1) \<le> fl (a * s)" .
  have "fl (a * s) \<le> a * s * c2" by (rule f(2))
  also have "\<dots> \<le> x * (c2 * c2) * c2" using phi c(2) by (intro mult_right_mono) simp_all
  also have "\<dots> = x * (c2 * c2 * c2)" by simp
  finally have hi: "fl (a * s) \<le> x * (c2 * c2 * c2)" .
  have "x * (1 - 4 / 2 ^ 53) \<le> x * (c1 * c1 * c1)"
    using c(3) x by (intro mult_left_mono) simp_all
  with lo show "of_int n * sx * (1 - 4 / 2 ^ 53) \<le> py_mul_int_float n s"
    by (simp add: py_mul_int_float_def a_def x_def)
  have "x * (c2 * c2 * c2) \<le> x * (1 + 4 / 2 ^ 53)"
    using c(4) x by (intro mult_left_mono) simp_all
  with hi show "py_mul_int_float n s \<le> of_int n * sx * (1 + 4 / 2 ^ 53)"
    by (simp add: py_mul_int_float_def a_def x_def)
qed

text \<open>The truncated product, against the exact product \<open>N / d\<close>.\<close>

lemma scaled_dim:
  fixes n d N :: int and sx s :: rat
  assumes "0 < n" "0 < sx" "0 < d" "d < 2 ^ 24"
    and "of_int n * sx * of_int d = of_int N" "N < 2 ^ 48"
    and "sx * (1 - 1 / 2 ^ 53) \<le> s" "s \<le> sx * (1 + 1 / 2 ^ 53)"
  shows "N - d \<le> py_int (py_mul_int_float n s) * d"
    and "py_int (py_mul_int_float n s) * d \<le> N"
proof -
  define X where "X = py_mul_int_float n s"
  define x :: rat where "x = of_int n * sx"
  define m where "m = py_int X"
  have x0: "0 < x" using assms(1,2) by (simp add: x_def)
  have dr: "(0::rat) < of_int d" using assms(3) by simp
  have xd: "x * of_int d = of_int N" using assms(5) by (simp add: x_def)
  have Nr: "(of_int N :: rat) < 2 ^ 48"
  proof -
    have "(of_int N :: rat) < of_int (2 ^ 48)" using assms(6) by (simp only: of_int_less_iff)
    then show ?thesis by simp
  qed
  have Xb: "x * (1 - 4 / 2 ^ 53) \<le> X" "X \<le> x * (1 + 4 / 2 ^ 53)"
    using mul_int_float_bounds [OF assms(1,2,7,8)] by (simp_all add: X_def x_def)
  have X0: "0 \<le> X"
  proof -
    have "0 \<le> x * (1 - 4 / 2 ^ 53)" using x0 by simp
    then show ?thesis using Xb(1) by simp
  qed
  have m: "m = \<lfloor>X\<rfloor>" using X0 by (simp add: m_def py_int_def)
  have fl: "of_int m \<le> X" "X < of_int m + 1" unfolding m by linarith+
  text \<open>the error of \<open>X\<close>, multiplied by \<open>d\<close>, stays below one\<close>
  have err: "x * (4 / 2 ^ 53) * of_int d < 1"
  proof -
    have "x * (4 / 2 ^ 53) * of_int d = of_int N * (4 / 2 ^ 53)"
      using xd by (simp add: mult_ac)
    also have "\<dots> < 2 ^ 48 * (4 / 2 ^ 53)"
      using Nr by (intro mult_strict_right_mono) simp_all
    also have "\<dots> \<le> 1" by simp
    finally show ?thesis .
  qed
  have up: "of_int (m * d) < (of_int (N + 1) :: rat)"
  proof -
    have "of_int m * of_int d \<le> X * (of_int d :: rat)"
      using fl(1) dr by (intro mult_right_mono) simp_all
    also have "\<dots> \<le> x * (1 + 4 / 2 ^ 53) * of_int d"
      using Xb(2) dr by (intro mult_right_mono) simp_all
    also have "\<dots> = of_int N + x * (4 / 2 ^ 53) * of_int d"
      using xd by (simp add: algebra_simps)
    also have "\<dots> < of_int N + 1" using err by simp
    finally show ?thesis by simp
  qed
  have low: "(of_int (N - 1) :: rat) < of_int ((m + 1) * d)"
  proof -
    have "of_int N - 1 < of_int N - x * (4 / 2 ^ 53) * (of_int d :: rat)"
      using err by simp
    also have "\<dots> = x * (1 - 4 / 2 ^ 53) * of_int d"
      using xd by (simp add: algebra_simps)
    also have "\<dots> \<le> X * of_int d"
      using Xb(1) dr by (intro mult_right_mono) simp_all
    also have "\<dots> < (of_int m + 1) * of_int d"
      using fl(2) dr by (intro mult_strict_right_mono) simp_all
    finally show ?thesis by simp
  qed
  have "m * d < N + 1" using up by (simp only: of_int_less_iff)
  then show "py_int (py_mul_int_float n s) * d \<le> N" by (simp add: m_def X_def)
  have "N - 1 < (m + 1) * d" using low by (simp only: of_int_less_iff)
  then show "N - d \<le> py_int (py_mul_int_float n s) * d"
    by (simp add: m_def X_def algebra_simps)
qed

lemma int_less_pow24_mult:
  fixes a b :: int
  assumes "0 < a" "a < 2 ^ 24" "0 < b" "b < 2 ^ 24"
  shows "a * b < 2 ^ 48"
proof -
  have "a * b < 2 ^ 24 * 2 ^ 24"
    using assms by (intro mult_strict_mono) simp_all
  then show ?thesis by simp
qed

text \<open>Lines 156 to 158 on positive bounds and dimensions below \<open>2 ^ 24\<close>: with
  \<open>N = min (mw * h) (mh * w)\<close>, the exactly scaled width is \<open>N / h\<close> and the exactly
  scaled height is \<open>N / w\<close>; each emitted dimension is at most that and misses it by at
  most one.\<close>

lemma scaled_size_within_one:
  fixes mw mh w h :: int
  assumes "0 < mw" "mw < 2 ^ 24" "0 < mh" "mh < 2 ^ 24"
    and "0 < w" "w < 2 ^ 24" "0 < h" "h < 2 ^ 24"
  shows "\<exists>nw nh. scaled_size mw mh w h = Inr (nw, nh)
           \<and> min (mw * h) (mh * w) - h \<le> nw * h \<and> nw * h \<le> min (mw * h) (mh * w)
           \<and> min (mw * h) (mh * w) - w \<le> nh * w \<and> nh * w \<le> min (mw * h) (mh * w)"
proof -
  define A :: rat where "A = of_int mw / of_int w"
  define B :: rat where "B = of_int mh / of_int h"
  define N where "N = min (mw * h) (mh * w)"
  define s where "s = min (fl A) (fl B)"
  have r: "(0::rat) < of_int mw" "(0::rat) < of_int mh" "(0::rat) < of_int w" "(0::rat) < of_int h"
    using assms by simp_all
  have A0: "0 < A" and B0: "0 < B" using r by (simp_all add: A_def B_def)
  have sx0: "0 < min A B" using A0 B0 by simp
  have c1: "(0::rat) \<le> 1 - 1 / 2 ^ 53" by simp
  note ms = min_scale [OF fl_bounds(1) [OF A0] fl_bounds(2) [OF A0]
                          fl_bounds(1) [OF B0] fl_bounds(2) [OF B0] c1]
  have s: "min A B * (1 - 1 / 2 ^ 53) \<le> s" "s \<le> min A B * (1 + 1 / 2 ^ 53)"
    unfolding s_def by (rule ms(1)) (rule ms(2))
  have AB: "A \<le> B \<longleftrightarrow> mw * h \<le> mh * w"
  proof -
    have "A \<le> B \<longleftrightarrow> of_int mw * of_int h \<le> (of_int mh * of_int w :: rat)"
      using r by (simp add: A_def B_def field_simps)
    also have "\<dots> \<longleftrightarrow> (of_int (mw * h) :: rat) \<le> of_int (mh * w)" by simp
    also have "\<dots> \<longleftrightarrow> mw * h \<le> mh * w" by (simp only: of_int_le_iff)
    finally show ?thesis .
  qed
  have N: "of_int w * min A B * of_int h = (of_int N :: rat)"
  proof (cases "A \<le> B")
    case True
    then have "min A B = A" "N = mw * h" using AB by (simp_all add: N_def)
    then show ?thesis using r by (simp add: A_def)
  next
    case False
    then have "min A B = B" "N = mh * w" using AB by (simp_all add: N_def)
    then show ?thesis using r by (simp add: B_def)
  qed
  have N': "of_int h * min A B * of_int w = (of_int N :: rat)"
    using N by (simp add: mult_ac)
  have "N \<le> mw * h" by (simp add: N_def)
  moreover have "mw * h < 2 ^ 48" using assms by (intro int_less_pow24_mult)
  ultimately have Nb: "N < 2 ^ 48" by simp
  have sz: "scaled_size mw mh w h
              = Inr (py_int (py_mul_int_float w s), py_int (py_mul_int_float h s))"
    using assms(5,7) by (simp add: scaled_size_def py_truediv_def s_def A_def B_def Let_def)
  note wd = scaled_dim [OF assms(5) sx0 assms(7,8) N Nb s]
  note ht = scaled_dim [OF assms(7) sx0 assms(5,6) N' Nb s]
  show ?thesis
    unfolding sz using wd ht by (simp add: N_def)
qed

text \<open>Neither emitted dimension exceeds its bound, and neither is negative.\<close>

lemma within_one_bounds:
  fixes mw mh w h nw nh :: int
  assumes "0 < w" "0 < h"
    and "min (mw * h) (mh * w) - h \<le> nw * h" "nw * h \<le> min (mw * h) (mh * w)"
    and "min (mw * h) (mh * w) - w \<le> nh * w" "nh * w \<le> min (mw * h) (mh * w)"
    and "0 < mw" "0 < mh"
  shows "nw \<le> mw" "nh \<le> mh" "0 \<le> nw" "0 \<le> nh" "\<bar>nw * h - nh * w\<bar> \<le> max w h"
proof -
  have "nw * h \<le> mw * h" using assms(4) by simp
  then show "nw \<le> mw" using assms(2) by simp
  have "nh * w \<le> mh * w" using assms(6) by simp
  then show "nh \<le> mh" using assms(1) by simp
  have N0: "0 < min (mw * h) (mh * w)" using assms(1,2,7,8) by simp
  have "- h < nw * h" using N0 assms(3) by linarith
  then have "(-1) * h < nw * h" by simp
  then have "-1 < nw" using assms(2) by (simp only: mult_less_cancel_right_pos)
  then show "0 \<le> nw" by simp
  have "- w < nh * w" using N0 assms(5) by linarith
  then have "(-1) * w < nh * w" by simp
  then have "-1 < nh" using assms(1) by (simp only: mult_less_cancel_right_pos)
  then show "0 \<le> nh" by simp
  show "\<bar>nw * h - nh * w\<bar> \<le> max w h" using assms(3-6) by linarith
qed

lemma exact_scale_times:
  fixes mw mh w h :: int
  assumes "0 < w" "0 < h"
  shows "of_int w * min (of_int mw / of_int w) (of_int mh / of_int h) * of_int h
           = (of_int (min (mw * h) (mh * w)) :: rat)"
proof -
  have r: "(0::rat) < of_int w" "(0::rat) < of_int h" using assms by simp_all
  have AB: "(of_int mw / of_int w :: rat) \<le> of_int mh / of_int h \<longleftrightarrow> mw * h \<le> mh * w"
  proof -
    have "(of_int mw / of_int w :: rat) \<le> of_int mh / of_int h
            \<longleftrightarrow> of_int mw * of_int h \<le> (of_int mh * of_int w :: rat)"
      using r by (simp add: field_simps)
    also have "\<dots> \<longleftrightarrow> (of_int (mw * h) :: rat) \<le> of_int (mh * w)" by simp
    also have "\<dots> \<longleftrightarrow> mw * h \<le> mh * w" by (simp only: of_int_le_iff)
    finally show ?thesis .
  qed
  show ?thesis
  proof (cases "mw * h \<le> mh * w")
    case True
    then have "min (of_int mw / of_int w :: rat) (of_int mh / of_int h) = of_int mw / of_int w"
      "min (mw * h) (mh * w) = mw * h" using AB by simp_all
    then show ?thesis using r by simp
  next
    case False
    then have "min (of_int mw / of_int w :: rat) (of_int mh / of_int h) = of_int mh / of_int h"
      "min (mw * h) (mh * w) = mh * w" using AB by simp_all
    then show ?thesis using r by simp
  qed
qed

text \<open>An integer within one below \<open>N / d\<close>, said of the rational \<open>x\<close> with \<open>x * d = N\<close>.\<close>

lemma within_one_rat:
  fixes n d N :: int and x :: rat
  assumes "0 < d" "x * of_int d = of_int N" "N - d \<le> n * d" "n * d \<le> N"
  shows "of_int n \<le> x" "x - 1 \<le> of_int n"
proof -
  have d: "(0::rat) < of_int d" using assms(1) by simp
  have "(of_int (n * d) :: rat) \<le> of_int N" using assms(4) by (simp only: of_int_le_iff)
  then have "of_int n * of_int d \<le> x * (of_int d :: rat)" using assms(2) by simp
  then show "of_int n \<le> x" using d by (simp only: mult_le_cancel_right_pos)
  have "(of_int (N - d) :: rat) \<le> of_int (n * d)" using assms(3) by (simp only: of_int_le_iff)
  then have "(x - 1) * of_int d \<le> of_int n * (of_int d :: rat)"
    using assms(2) by (simp add: algebra_simps)
  then show "x - 1 \<le> of_int n" using d by (simp only: mult_le_cancel_right_pos)
qed

lemma nat_less_pow31_of_int:
  assumes "int n \<le> m" "m < 2 ^ 24"
  shows "n < 2 ^ 31"
proof -
  have "int n < 2 ^ 31" using assms by simp
  then have "int n < int (2 ^ 31)" by simp
  then show ?thesis by (simp only: of_nat_less_iff)
qed

lemma tcp_prepare_resize:
  assumes "cv_cvtColor env frm = Inr rgb"
    and "mw < int (cols rgb) \<or> mh < int (rows rgb)"
    and "scaled_size mw mh (int (cols rgb)) (int (rows rgb)) = Inr (nw, nh)"
    and "cv_resize env rgb (nw, nh) = Inr out"
    and "cols out < 2 ^ 31" "rows out < 2 ^ 31"
  shows "tcp_prepare env frm mw mh =
           Inr (int (cols out), int (rows out),
                le32 0 @ le32 2 @ le32 (word_of_nat (cols out)) @ le32 (word_of_nat (rows out))
                  @ le32 1 @ le32 3 @ pix out)"
proof -
  have "matrix_packet (int (cols out)) (int (rows out)) (pix out) =
          Inr (le32 0 @ le32 2 @ le32 (word_of_int (int (cols out)))
                @ le32 (word_of_int (int (rows out))) @ le32 1 @ le32 3 @ pix out)"
    using assms(5,6) by (intro matrix_packet_ok int_less_pow31) simp_all
  then show ?thesis
    unfolding tcp_prepare_def by (simp add: assms(1,2,3,4))
qed

text \<open>The example of the specification: a 1280 by 720 frame under the bound 640 by
  480 is sent as 640 by 360. A width of 1077 under the same bound comes out as 639: the
  product \<open>1077 * (640 / 1077)\<close> rounds below 640.\<close>

lemma scaled_size_examples:
  "scaled_size 640 480 1280 720 = Inr (640, 360)"
  "scaled_size 640 480 1077 700 = Inr (639, 415)"
  "scaled_size 2 2 2 4 = Inr (1, 2)"
  "scaled_size 2 2 4 1 = Inr (2, 0)"
  by code_simp+

text \<open>
  C2, as the code has it. For positive bounds and a frame of positive dimensions \<open>w\<close>,
  \<open>h\<close> (all below \<open>2 ^ 24\<close>) with \<open>w\<close> or \<open>h\<close> over its bound, let \<open>nw = int(w * s)\<close> and
  \<open>nh = int(h * s)\<close> be the target size the code computes in floating point. Whenever
  \<^verbatim>\<open>resize\<close> accepts that size and returns an image of it, \<^verbatim>\<open>update_frame\<close> publishes a
  packet of dimensions \<open>nw\<close>, \<open>nh\<close>; neither exceeds its bound, and each is at most the
  exactly scaled dimension (\<open>w * scale\<close>, \<open>h * scale\<close> with the exact
  \<open>scale = min (mw / w) (mh / h)\<close>, whose ratio is \<open>w / h\<close>) and within one pixel of it.
\<close>

theorem C2_downscale_within_one_pixel:
  fixes nw nh :: int
  assumes "cv_imencode env frm = Inr jpg"
    and "cv_cvtColor env frm = Inr rgb" "cols rgb = cols frm" "rows rgb = rows frm"
    and "0 < max_width s" "max_width s < 2 ^ 24" "0 < max_height s" "max_height s < 2 ^ 24"
    and "0 < cols frm" "int (cols frm) < 2 ^ 24" "0 < rows frm" "int (rows frm) < 2 ^ 24"
    and "max_width s < int (cols frm) \<or> max_height s < int (rows frm)"
    and "scaled_size (max_width s) (max_height s) (int (cols frm)) (int (rows frm))
           = Inr (nw, nh)"
    and "cv_resize env rgb (nw, nh) = Inr out"
    and "int (cols out) = nw" "int (rows out) = nh" "frame_ok out"
  shows "\<exists>t p. update_frame env frm s = Inr t \<and> latest_frame_data t = Some p
           \<and> packet_header p = [0, 2, nw, nh, 1, 3]
           \<and> drop 24 p = pix out
           \<and> int (length (pix out)) = nw * nh * 3
           \<and> nw \<le> max_width s \<and> nh \<le> max_height s
           \<and> of_int nw \<le> of_int (int (cols frm))
                * min (of_int (max_width s) / of_int (int (cols frm)))
                      (of_int (max_height s) / of_int (int (rows frm)) :: rat)
           \<and> of_int (int (cols frm))
                * min (of_int (max_width s) / of_int (int (cols frm)))
                      (of_int (max_height s) / of_int (int (rows frm)) :: rat) - 1 \<le> of_int nw
           \<and> of_int nh \<le> of_int (int (rows frm))
                * min (of_int (max_width s) / of_int (int (cols frm)))
                      (of_int (max_height s) / of_int (int (rows frm)) :: rat)
           \<and> of_int (int (rows frm))
                * min (of_int (max_width s) / of_int (int (cols frm)))
                      (of_int (max_height s) / of_int (int (rows frm)) :: rat) - 1 \<le> of_int nh
           \<and> \<bar>nw * int (rows frm) - nh * int (cols frm)\<bar> \<le> max (int (cols frm)) (int (rows frm))"
proof -
  define mw mh w h where "mw = max_width s" and "mh = max_height s"
    and "w = int (cols frm)" and "h = int (rows frm)"
  define N where "N = min (mw * h) (mh * w)"
  define sx :: rat where "sx = min (of_int mw / of_int w) (of_int mh / of_int h)"
  have pos: "0 < mw" "mw < 2 ^ 24" "0 < mh" "mh < 2 ^ 24" "0 < w" "w < 2 ^ 24" "0 < h" "h < 2 ^ 24"
    using assms(5-12) by (simp_all add: mw_def mh_def w_def h_def)
  have sz: "scaled_size mw mh w h = Inr (nw, nh)"
    using assms(14) by (simp add: mw_def mh_def w_def h_def)
  have one: "N - h \<le> nw * h" "nw * h \<le> N" "N - w \<le> nh * w" "nh * w \<le> N"
    using scaled_size_within_one [OF pos] sz by (auto simp: N_def)
  note b = within_one_bounds [OF pos(5,7) one [unfolded N_def] pos(1,3)]
  have xw: "of_int w * sx * of_int h = (of_int N :: rat)"
    unfolding sx_def N_def by (rule exact_scale_times [OF pos(5,7)])
  have xh: "of_int h * sx * of_int w = (of_int N :: rat)"
    using xw by (simp add: mult_ac)
  note rw = within_one_rat [OF pos(7) xw one(1,2)]
  note rh = within_one_rat [OF pos(5) xh one(3,4)]
  have small: "cols out < 2 ^ 31" "rows out < 2 ^ 31"
    using b(1,2) pos(2,4) assms(16,17)
    by (auto intro: nat_less_pow31_of_int [where m = mw] nat_less_pow31_of_int [where m = mh])
  let ?p = "le32 0 @ le32 2 @ le32 (word_of_nat (cols out)) @ le32 (word_of_nat (rows out))
              @ le32 1 @ le32 3 @ pix out"
  have big: "mw < int (cols rgb) \<or> mh < int (rows rgb)"
    using assms(13) by (simp add: assms(3,4) mw_def mh_def)
  have sz': "scaled_size mw mh (int (cols rgb)) (int (rows rgb)) = Inr (nw, nh)"
    using sz by (simp add: assms(3,4) w_def h_def)
  have prep: "tcp_prepare env frm (max_width s) (max_height s)
                = Inr (int (cols out), int (rows out), ?p)"
    using tcp_prepare_resize [OF assms(2) big sz' assms(15) small]
    by (simp add: mw_def mh_def)
  obtain t where t: "update_frame env frm s = Inr t" "latest_frame_data t = Some ?p"
    using update_frame_latest [OF assms(1) prep] by blast
  have hdr: "packet_header ?p = [0, 2, nw, nh, 1, 3]"
    unfolding packet_header_fields
    using sint_word_of_nat_32 [OF small(1)] sint_word_of_nat_32 [OF small(2)] assms(16,17)
    by simp
  have drp: "drop 24 ?p = pix out" by (simp add: length_le32)
  have "int (length (pix out)) = int (rows out) * int (cols out) * 3"
    using assms(18) by (simp add: frame_ok_def)
  then have len: "int (length (pix out)) = nw * nh * 3"
    using assms(16,17) by (simp add: mult.commute)
  show ?thesis
    using t hdr drp len b(1,2,5) rw rh
    unfolding sx_def mw_def mh_def w_def h_def by blast
qed

theorem C2_downscale_within_one_pixel_witness:
  "\<exists>t. update_frame sample_env tall_frame fresh_small = Inr t
       \<and> map_option packet_header (latest_frame_data t) = Some [0, 2, 1, 2, 1, 3]"
proof -
  let ?out = "\<lparr>rows = 2, cols = 1, pix = replicate 6 (0::byte)\<rparr>"
  let ?rgb = "tall_frame\<lparr>pix := swap_channels (pix tall_frame)\<rparr>"
  have "\<exists>t p. update_frame sample_env tall_frame fresh_small = Inr t
           \<and> latest_frame_data t = Some p
           \<and> packet_header p = [0, 2, 1, 2, 1, 3]
           \<and> drop 24 p = pix ?out
           \<and> int (length (pix ?out)) = 1 * 2 * 3
           \<and> 1 \<le> max_width fresh_small \<and> 2 \<le> max_height fresh_small
           \<and> of_int 1 \<le> of_int (int (cols tall_frame))
                * min (of_int (max_width fresh_small) / of_int (int (cols tall_frame)))
                      (of_int (max_height fresh_small) / of_int (int (rows tall_frame)) :: rat)
           \<and> of_int (int (cols tall_frame))
                * min (of_int (max_width fresh_small) / of_int (int (cols tall_frame)))
                      (of_int (max_height fresh_small) / of_int (int (rows tall_frame)) :: rat)
                - 1 \<le> of_int 1
           \<and> of_int 2 \<le> of_int (int (rows tall_frame))
                * min (of_int (max_width fresh_small) / of_int (int (cols tall_frame)))
                      (of_int (max_height fresh_small) / of_int (int (rows tall_frame)) :: rat)
           \<and> of_int (int (rows tall_frame))
                * min (of_int (max_width fresh_small) / of_int (int (cols tall_frame)))
                      (of_int (max_height fresh_small) / of_int (int (rows tall_frame)) :: rat)
                - 1 \<le> of_int 2
           \<and> \<bar>1 * int (rows tall_frame) - 2 * int (cols tall_frame)\<bar>
               \<le> max (int (cols tall_frame)) (int (rows tall_frame))"
    by (rule C2_downscale_within_one_pixel
          [where jpg = "[255, 216, 255, 217]" and rgb = ?rgb and out = ?out])
      (simp_all add: sample_env_def tall_frame_def fresh_small_def init_def frame_ok_def
        scaled_size_examples)
  then show ?thesis by auto
qed

text \<open>C2 as stated fails: a strip four pixels wide and one high under a bound of two by
  two gets the target size 2 by 0, \<^verbatim>\<open>resize\<close> rejects it, and no packet is published.\<close>

theorem C2_counterexample:
  "scaled_size 2 2 4 1 = Inr (2, 0)
   \<and> map_sum id latest_frame_data (update_frame sample_env strip_frame fresh_small) = Inr None"
proof -
  have "tcp_prepare sample_env strip_frame 2 2 = Inl CvError"
    by (simp add: tcp_prepare_def sample_env_def strip_frame_def scaled_size_examples)
  then have "\<And>u. max_width u = 2 \<Longrightarrow> max_height u = 2 \<Longrightarrow>
      latest_frame_data (tcp_sink_step sample_env strip_frame u) = latest_frame_data u"
    by (simp add: tcp_sink_step_keeps)
  moreover obtain es where "virtual_cam_step sample_env strip_frame
      (file_snapshot_step sample_env strip_frame (publish_jpeg [255, 216, 255, 217] fresh_small))
        = emit es (publish_jpeg [255, 216, 255, 217] fresh_small)"
    using sinks_before_tcp_emit by blast
  moreover have "cv_imencode sample_env strip_frame = Inr [255, 216, 255, 217]"
    by (simp add: sample_env_def strip_frame_def)
  ultimately show ?thesis
    by (simp add: update_frame_def scaled_size_examples emit_fields publish_jpeg_fields
        fresh_small_def init_def)
qed

subsection \<open>\<^verbatim>\<open>update_frame\<close> after \<^verbatim>\<open>stop\<close>\<close>









end
